theory Spec2Isabelle
  imports Main "HOL-Library.Char_ord" "HOL-Library.List_Lexorder" "HOL-Library.Sublist"
begin

section \<open>Data model\<close>

text \<open>
  JavaScript strings are modelled as HOL strings. Two characters that cannot be written
  inside a HOL string literal get a name.
\<close>

abbreviation quote :: char where
  "quote \<equiv> CHR 0x27"

abbreviation newline :: char where
  "newline \<equiv> CHR 0x0A"

text \<open>
  The values that can stand in an \<open>allow\<close> list. The code asks of such a value whether
  it is a string, whether it is \<open>null\<close> or the empty string, and prints it inside a
  template literal; it never computes with it. A value that is neither \<open>null\<close>, a
  boolean nor a string (a number, an object) is therefore given by the text that the
  runtime's conversion to a string yields for it: \<open>JOther ''0.5''\<close>, \<open>JOther ''1e+21''\<close>,
  \<open>JOther ''[object Object]''\<close>.
\<close>

datatype jsval = JNull | JBool bool | JStr string | JOther string

text \<open>The exceptions the parser and the renderer can raise.\<close>

datatype error =
    NeedsName
  | MultipleArrayItems
  | UnsupportedJoin string
  | TypeError

text \<open>
  \<open>BaseDescribe.flags\<close> of \<open>parse.ts\<close>: every field is optional. \<open>presence\<close> is kept as
  the string the code compares it with.
\<close>

record Flags =
  label :: "string option"
  fdescription :: "string option"
  presence :: "string option"
  unknown :: "bool option"

text \<open>
  A description node. It is one JavaScript object whose \<open>type\<close> tag decides which of the
  other fields are read, so the model is one constructor. Every field but \<open>type\<close> can be
  absent: the description of a schema has no \<open>items\<close>, \<open>keys\<close> or \<open>matches\<close> key when
  the schema has no item, key or match. \<open>keys\<close> is the list that \<open>Object.entries\<close>
  enumerates, in that order. An element \<open>{schema}\<close> of \<open>matches\<close> is modelled by its
  only field.
\<close>

datatype Describe =
  Describe
    (type: string)
    (flags: "Flags option")
    (allow: "jsval list option")
    (items: "Describe list option")
    (keys: "(string \<times> Describe) list option")
    (matches: "Describe list option")

text \<open>
  \<open>joinOperation\<close> is declared as one of three strings; the renderer has a default
  branch for any other value, which \<open>OtherOp\<close> carries.
\<close>

datatype joinOperation = ListOp | UnionOp | ObjectOp | OtherOp string

text \<open>
  Modelled from the spec: the type \<open>TypeContent\<close> of \<open>./types\<close>, which is imported by
  \<open>parse.ts\<close> and is not part of the sources at hand. The spec (section 3) gives it as a
  discriminated union of a leaf, holding \<open>content\<close>, and a composite, holding a
  \<open>joinOperation\<close> and an ordered sequence of children, with the common metadata
  \<open>name\<close>, \<open>description\<close>, \<open>required\<close> on both and \<open>customTypes\<close> on the leaf (the
  only place \<open>parse.ts\<close> reads or writes it). The leaf is every node whose \<open>__isRoot\<close>
  is not truthy.
\<close>

datatype TypeContent =
    TypeContentChild
      (content: string)
      (customTypes: "string list option")
      (required: "bool option")
      (name: "string option")
      (description: "string option")
  | TypeContentRoot
      (joinOperation: joinOperation)
      (children: "TypeContent list")
      (required: "bool option")
      (name: "string option")
      (description: "string option")

text \<open>
  Modelled from the spec: the constructors \<open>makeTypeContentChild\<close> and
  \<open>makeTypeContentRoot\<close> of \<open>./types\<close>. Each takes an object with the fields of its
  shape and returns the node with these fields; a field the caller leaves out is
  \<open>undefined\<close>, here \<open>None\<close>.
\<close>

definition makeTypeContentChild ::
  "string \<Rightarrow> string list option \<Rightarrow> bool option \<Rightarrow> string option \<Rightarrow> string option \<Rightarrow> TypeContent" where
  "makeTypeContentChild c ct r n d = TypeContentChild c ct r n d"

definition makeTypeContentRoot ::
  "joinOperation \<Rightarrow> TypeContent list \<Rightarrow> bool option \<Rightarrow> string option \<Rightarrow> string option \<Rightarrow> TypeContent" where
  "makeTypeContentRoot jo cs r n d = TypeContentRoot jo cs r n d"

text \<open>Assignments to a field of a node: \<open>parsedSchema.name = ...\<close> and its like.\<close>

fun set_name :: "string option \<Rightarrow> TypeContent \<Rightarrow> TypeContent" where
  "set_name v (TypeContentChild c ct r n d) = TypeContentChild c ct r v d"
| "set_name v (TypeContentRoot jo cs r n d) = TypeContentRoot jo cs r v d"

fun set_description :: "string option \<Rightarrow> TypeContent \<Rightarrow> TypeContent" where
  "set_description v (TypeContentChild c ct r n d) = TypeContentChild c ct r n v"
| "set_description v (TypeContentRoot jo cs r n d) = TypeContentRoot jo cs r n v"

fun set_required :: "bool option \<Rightarrow> TypeContent \<Rightarrow> TypeContent" where
  "set_required v (TypeContentChild c ct r n d) = TypeContentChild c ct v n d"
| "set_required v (TypeContentRoot jo cs r n d) = TypeContentRoot jo cs v n d"

text \<open>
  The fields of \<open>Settings\<close> that \<open>parse.ts\<close> reads. \<open>commentEverything\<close> reaches the
  renderer as an argument of its own.
\<close>

record Settings =
  defaultToRequired :: bool
  sortPropertiesByName :: bool

section \<open>JavaScript primitives\<close>

text \<open>Truthiness of an optional string: \<open>undefined\<close> and the empty string are falsy.\<close>

definition truthy :: "string option \<Rightarrow> bool" where
  "truthy s = (case s of None \<Rightarrow> False | Some t \<Rightarrow> t \<noteq> [])"

text \<open>An optional string inside a template literal: \<open>undefined\<close> prints as its name.\<close>

definition tmpl :: "string option \<Rightarrow> string" where
  "tmpl s = (case s of None \<Rightarrow> ''undefined'' | Some t \<Rightarrow> t)"

text \<open>A literal value inside a template literal.\<close>

fun jsToString :: "jsval \<Rightarrow> string" where
  "jsToString JNull = ''null''"
| "jsToString (JBool b) = (if b then ''true'' else ''false'')"
| "jsToString (JOther t) = t"
| "jsToString (JStr s) = s"

text \<open>\<open>typeof value === 'string'\<close>.\<close>

fun isString :: "jsval \<Rightarrow> bool" where
  "isString (JStr s) = True"
| "isString v = False"

text \<open>\<open>Array.prototype.join\<close> on an array of strings.\<close>

fun join :: "string \<Rightarrow> string list \<Rightarrow> string" where
  "join sep [] = []"
| "join sep [x] = x"
| "join sep (x # y # ys) = x @ sep @ join sep (y # ys)"

text \<open>\<open>String.prototype.repeat\<close>.\<close>

fun repeat :: "string \<Rightarrow> nat \<Rightarrow> string" where
  "repeat s 0 = []"
| "repeat s (Suc n) = s @ repeat s n"

text \<open>
  \<open>Array.prototype.map\<close> with a callback that may throw: the first exception ends the
  traversal.
\<close>

fun mapE :: "('a \<Rightarrow> error + 'b) \<Rightarrow> 'a list \<Rightarrow> error + 'b list" where
  "mapE f [] = Inr []"
| "mapE f (x # xs) =
     (case f x of
        Inl e \<Rightarrow> Inl e
      | Inr y \<Rightarrow> (case mapE f xs of Inl e \<Rightarrow> Inl e | Inr ys \<Rightarrow> Inr (y # ys)))"

lemma mapE_cong [fundef_cong]:
  "xs = ys \<Longrightarrow> (\<And>x. x \<in> set ys \<Longrightarrow> f x = g x) \<Longrightarrow> mapE f xs = mapE g ys"
  by (induction ys arbitrary: xs) (auto split: sum.splits)

text \<open>
  Modelled from the spec: \<open>filterMap\<close> of \<open>./utils\<close>, imported by \<open>parse.ts\<close> and not
  part of the sources at hand. The spec has it map every element in order and filter
  out the ones whose result is nothing (\<open>undefined\<close>). The callback may throw, which
  ends the traversal.
\<close>

fun filterMap :: "'a list \<Rightarrow> ('a \<Rightarrow> error + 'b option) \<Rightarrow> error + 'b list" where
  "filterMap [] mapper = Inr []"
| "filterMap (x # xs) mapper =
     (case mapper x of
        Inl e \<Rightarrow> Inl e
      | Inr None \<Rightarrow> filterMap xs mapper
      | Inr (Some y) \<Rightarrow> (case filterMap xs mapper of Inl e \<Rightarrow> Inl e | Inr ys \<Rightarrow> Inr (y # ys)))"

lemma filterMap_cong [fundef_cong]:
  "xs = ys \<Longrightarrow> (\<And>x. x \<in> set ys \<Longrightarrow> f x = g x) \<Longrightarrow> filterMap xs f = filterMap ys g"
  by (induction ys arbitrary: xs) (auto split: sum.splits option.splits)

text \<open>
  \<open>Array.prototype.sort\<close> with a comparator: a stable sort, here by insertion. An
  element goes in front of the first one the comparator does not put it after.
\<close>

fun insertBy :: "('a \<Rightarrow> 'a \<Rightarrow> int) \<Rightarrow> 'a \<Rightarrow> 'a list \<Rightarrow> 'a list" where
  "insertBy cmp x [] = [x]"
| "insertBy cmp x (y # ys) = (if cmp x y \<le> 0 then x # y # ys else y # insertBy cmp x ys)"

fun sortBy :: "('a \<Rightarrow> 'a \<Rightarrow> int) \<Rightarrow> 'a list \<Rightarrow> 'a list" where
  "sortBy cmp [] = []"
| "sortBy cmp (x # xs) = insertBy cmp x (sortBy cmp xs)"

text \<open>
  The relational operators on two property names. Two strings compare by their code
  units, a proper prefix first; a comparison with \<open>undefined\<close> is false.
\<close>

definition jsGt :: "string option \<Rightarrow> string option \<Rightarrow> bool" where
  "jsGt a b = (case (a, b) of (Some x, Some y) \<Rightarrow> x > y | _ \<Rightarrow> False)"

definition jsLt :: "string option \<Rightarrow> string option \<Rightarrow> bool" where
  "jsLt a b = (case (a, b) of (Some x, Some y) \<Rightarrow> x < y | _ \<Rightarrow> False)"

section \<open>The renderer\<close>

definition getIndentStr :: "nat \<Rightarrow> string" where
  "getIndentStr indentLevel = repeat ''  '' indentLevel"

definition getDescriptionStr :: "bool \<Rightarrow> string option \<Rightarrow> string option \<Rightarrow> nat \<Rightarrow> string" where
  "getDescriptionStr commentEverything nm descr indentLevel =
     (if \<not> commentEverything \<and> \<not> truthy descr then []
      else
        let docStr = (if truthy descr then tmpl descr else tmpl nm);
            lines = [''/**'', '' * '' @ docStr, '' */'']
        in join [newline] (map (\<lambda>line. getIndentStr indentLevel @ line) lines) @ [newline])"

text \<open>
  The result is the pair of \<open>tsContent\<close> and \<open>description\<close>. The default arguments
  \<open>doExport = false\<close> and \<open>indentLevel = 0\<close> are written out at the calls.
\<close>

fun typeContentToTsHelper ::
  "bool \<Rightarrow> TypeContent \<Rightarrow> bool \<Rightarrow> nat \<Rightarrow> error + (string \<times> string option)" where
  "typeContentToTsHelper commentEverything (TypeContentChild c ct r n d) doExport indentLevel =
     Inr (c, d)"
| "typeContentToTsHelper commentEverything (TypeContentRoot jo cs r n d) doExport indentLevel =
     (if doExport \<and> \<not> truthy n then Inl NeedsName
      else case jo of
        ListOp \<Rightarrow>
          (case mapE (\<lambda>child. typeContentToTsHelper commentEverything child False 0) cs of
             Inl e \<Rightarrow> Inl e
           | Inr childrenContent \<Rightarrow>
               if length childrenContent > 1 then Inl MultipleArrayItems
               else
                 (case childrenContent of
                    [] \<Rightarrow> Inl TypeError
                  | (content0, _) # _ \<Rightarrow>
                      let content1 =
                            (if CHR ''|'' \<in> set content0 then ''('' @ content0 @ '')''
                             else content0);
                          arrayStr = content1 @ ''[]''
                      in if doExport
                         then Inr (''export type '' @ tmpl n @ '' = '' @ arrayStr @ '';'', d)
                         else Inr (arrayStr, d)))
      | UnionOp \<Rightarrow>
          (case mapE (\<lambda>child. typeContentToTsHelper commentEverything child False 0) cs of
             Inl e \<Rightarrow> Inl e
           | Inr childrenInfo \<Rightarrow>
               let unionStr = join '' | '' (map fst childrenInfo)
               in if doExport
                  then Inr (''export type '' @ tmpl n @ '' = '' @ unionStr @ '';'', d)
                  else Inr (unionStr, d))
      | ObjectOp \<Rightarrow>
          if length cs = 0 \<and> \<not> doExport then Inr (''object'', d)
          else
            (case (if length cs \<noteq> 0
                   then
                     (case mapE (\<lambda>child.
                             case typeContentToTsHelper commentEverything child False
                                    (indentLevel + 1) of
                               Inl e \<Rightarrow> Inl e
                             | Inr (childContent, childDescription) \<Rightarrow>
                                 let descriptionStr =
                                       getDescriptionStr commentEverything (name child)
                                         childDescription (indentLevel + 1);
                                     optionalStr =
                                       (if required child = Some True then [] else ''?'')
                                 in Inr (descriptionStr @ ''  '' @ getIndentStr indentLevel
                                       @ tmpl (name child) @ optionalStr @ '': ''
                                       @ childContent @ '';'')) cs of
                        Inl e \<Rightarrow> Inl e
                      | Inr childrenContent \<Rightarrow>
                          Inr (''{'' @ [newline] @ join [newline] childrenContent
                               @ [newline] @ getIndentStr indentLevel @ ''}''))
                   else Inr ''{}'') of
               Inl e \<Rightarrow> Inl e
             | Inr objectStr \<Rightarrow>
                 if doExport then Inr (''export interface '' @ tmpl n @ '' '' @ objectStr, d)
                 else Inr (objectStr, d))
      | OtherOp s \<Rightarrow> Inl (UnsupportedJoin s))"

definition typeContentToTs :: "bool \<Rightarrow> TypeContent \<Rightarrow> bool \<Rightarrow> error + string" where
  "typeContentToTs commentEverything parsedSchema doExport =
     (case typeContentToTsHelper commentEverything parsedSchema doExport 0 of
        Inl e \<Rightarrow> Inl e
      | Inr (tsContent, descr) \<Rightarrow>
          Inr (getDescriptionStr commentEverything (name parsedSchema) descr 0 @ tsContent))"

text \<open>
  The renderer receives the tree by reference, so what a second call sees is the tree
  as the first call leaves it. To state that, the renderer is written once more with the
  tree threaded through it: a call returns, with its outcome, the node as it stands
  when the call ends or raises. \<open>children.map\<close> visits the children in order, each where
  it stands in its parent, and what the callback of the \<open>object\<close> branch reads of a
  child after rendering it (\<open>child.name\<close>, \<open>child.required\<close>) it reads from the child
  as that call left it; so does \<open>typeContentToTs\<close> with \<open>parsedSchema.name\<close>. The source
  has no assignment to a field of a node and calls no mutating method on \<open>children\<close>:
  the fields of the returned node are those of the argument, its children those its
  calls returned.
\<close>

fun mapS :: "('a \<Rightarrow> (error + 'b) \<times> 'a) \<Rightarrow> 'a list \<Rightarrow> (error + 'b list) \<times> 'a list" where
  "mapS f [] = (Inr [], [])"
| "mapS f (x # xs) =
     (case f x of
        (Inl e, x') \<Rightarrow> (Inl e, x' # xs)
      | (Inr y, x') \<Rightarrow>
          (case mapS f xs of
             (Inl e, xs') \<Rightarrow> (Inl e, x' # xs')
           | (Inr ys, xs') \<Rightarrow> (Inr (y # ys), x' # xs')))"

lemma mapS_cong [fundef_cong]:
  "xs = ys \<Longrightarrow> (\<And>x. x \<in> set ys \<Longrightarrow> f x = g x) \<Longrightarrow> mapS f xs = mapS g ys"
  by (induction ys arbitrary: xs) (auto split: sum.splits prod.splits)

fun typeContentToTsHelperS ::
  "bool \<Rightarrow> TypeContent \<Rightarrow> bool \<Rightarrow> nat \<Rightarrow> (error + (string \<times> string option)) \<times> TypeContent" where
  "typeContentToTsHelperS commentEverything (TypeContentChild c ct r n d) doExport indentLevel =
     (Inr (c, d), TypeContentChild c ct r n d)"
| "typeContentToTsHelperS commentEverything (TypeContentRoot jo cs r n d) doExport indentLevel =
     (if doExport \<and> \<not> truthy n then (Inl NeedsName, TypeContentRoot jo cs r n d)
      else case jo of
        ListOp \<Rightarrow>
          (case mapS (\<lambda>child. typeContentToTsHelperS commentEverything child False 0) cs of
             (Inl e, cs') \<Rightarrow> (Inl e, TypeContentRoot jo cs' r n d)
           | (Inr childrenContent, cs') \<Rightarrow>
               (if length childrenContent > 1 then Inl MultipleArrayItems
                else
                  (case childrenContent of
                     [] \<Rightarrow> Inl TypeError
                   | (content0, _) # _ \<Rightarrow>
                       let content1 =
                             (if CHR ''|'' \<in> set content0 then ''('' @ content0 @ '')''
                              else content0);
                           arrayStr = content1 @ ''[]''
                       in if doExport
                          then Inr (''export type '' @ tmpl n @ '' = '' @ arrayStr @ '';'', d)
                          else Inr (arrayStr, d)),
                TypeContentRoot jo cs' r n d))
      | UnionOp \<Rightarrow>
          (case mapS (\<lambda>child. typeContentToTsHelperS commentEverything child False 0) cs of
             (Inl e, cs') \<Rightarrow> (Inl e, TypeContentRoot jo cs' r n d)
           | (Inr childrenInfo, cs') \<Rightarrow>
               (let unionStr = join '' | '' (map fst childrenInfo)
                in if doExport
                   then Inr (''export type '' @ tmpl n @ '' = '' @ unionStr @ '';'', d)
                   else Inr (unionStr, d),
                TypeContentRoot jo cs' r n d))
      | ObjectOp \<Rightarrow>
          if length cs = 0 \<and> \<not> doExport then (Inr (''object'', d), TypeContentRoot jo cs r n d)
          else
            (case (if length cs \<noteq> 0
                   then
                     (case mapS (\<lambda>child.
                             case typeContentToTsHelperS commentEverything child False
                                    (indentLevel + 1) of
                               (Inl e, child') \<Rightarrow> (Inl e, child')
                             | (Inr (childContent, childDescription), child') \<Rightarrow>
                                 (let descriptionStr =
                                        getDescriptionStr commentEverything (name child')
                                          childDescription (indentLevel + 1);
                                      optionalStr =
                                        (if required child' = Some True then [] else ''?'')
                                  in Inr (descriptionStr @ ''  '' @ getIndentStr indentLevel
                                        @ tmpl (name child') @ optionalStr @ '': ''
                                        @ childContent @ '';''),
                                  child')) cs of
                        (Inl e, cs') \<Rightarrow> (Inl e, cs')
                      | (Inr childrenContent, cs') \<Rightarrow>
                          (Inr (''{'' @ [newline] @ join [newline] childrenContent
                                @ [newline] @ getIndentStr indentLevel @ ''}''),
                           cs'))
                   else (Inr ''{}'', cs)) of
               (Inl e, cs') \<Rightarrow> (Inl e, TypeContentRoot jo cs' r n d)
             | (Inr objectStr, cs') \<Rightarrow>
                 (if doExport then Inr (''export interface '' @ tmpl n @ '' '' @ objectStr, d)
                  else Inr (objectStr, d),
                  TypeContentRoot jo cs' r n d))
      | OtherOp s \<Rightarrow> (Inl (UnsupportedJoin s), TypeContentRoot jo cs r n d))"

declare typeContentToTsHelperS.simps [simp del]

definition typeContentToTsS :: "bool \<Rightarrow> TypeContent \<Rightarrow> bool \<Rightarrow> (error + string) \<times> TypeContent" where
  "typeContentToTsS commentEverything parsedSchema doExport =
     (case typeContentToTsHelperS commentEverything parsedSchema doExport 0 of
        (Inl e, parsedSchema') \<Rightarrow> (Inl e, parsedSchema')
      | (Inr (tsContent, descr), parsedSchema') \<Rightarrow>
          (Inr (getDescriptionStr commentEverything (name parsedSchema') descr 0 @ tsContent),
           parsedSchema'))"

section \<open>The parser\<close>

definition supportedJoiTypes :: "string list" where
  "supportedJoiTypes =
     [''array'', ''object'', ''alternatives'', ''any'', ''boolean'', ''date'', ''number'',
      ''string'']"

text \<open>\<open>details.flags?.f\<close>: a field of \<open>flags\<close>, absent when \<open>flags\<close> is.\<close>

definition flag :: "(Flags \<Rightarrow> 'a option) \<Rightarrow> Describe \<Rightarrow> 'a option" where
  "flag f details = (case flags details of None \<Rightarrow> None | Some fl \<Rightarrow> f fl)"

text \<open>The result is the triple of \<open>label\<close>, \<open>description\<close> and \<open>required\<close>.\<close>

definition getCommonDetails ::
  "Describe \<Rightarrow> Settings \<Rightarrow> string option \<times> string option \<times> bool" where
  "getCommonDetails details settings =
     (let lbl = flag label details;
          descr = flag fdescription details;
          pres = flag presence details;
          req = (if pres = Some ''optional'' then False
                 else if pres = Some ''required'' then True
                 else defaultToRequired settings)
      in (lbl, descr, req))"

definition parseBasicSchema :: "Describe \<Rightarrow> Settings \<Rightarrow> TypeContent option" where
  "parseBasicSchema details settings =
     (case getCommonDetails details settings of (nm, descr, _) \<Rightarrow>
        let joiType = type details;
            content0 = (if joiType = ''date'' then ''Date'' else joiType)
        in case allow details of
             Some (v # vs) \<Rightarrow>
               let values = v # vs;
                   allowedValues =
                     map (\<lambda>value. makeTypeContentChild
                            (if isString value then [quote] @ jsToString value @ [quote]
                             else jsToString value) None None None None) values;
                   allowedValues1 =
                     (if v = JNull
                      then makeTypeContentChild content0 None None None None # allowedValues
                      else allowedValues)
               in Some (makeTypeContentRoot UnionOp allowedValues1 None nm descr)
           | _ \<Rightarrow> Some (makeTypeContentChild content0 None None nm descr))"

definition stringAllowValues :: "jsval list" where
  "stringAllowValues = [JNull, JStr []]"

definition parseStringSchema :: "Describe \<Rightarrow> Settings \<Rightarrow> TypeContent option" where
  "parseStringSchema details settings =
     (case getCommonDetails details settings of (nm, descr, _) \<Rightarrow>
        case allow details of
          Some (v # vs) \<Rightarrow>
            let values = v # vs
            in if length values = 1 \<and> v = JStr []
               then Some (makeTypeContentChild ''string'' None None nm descr)
               else
                 let allowedValues =
                       map (\<lambda>value.
                              if value \<in> set stringAllowValues \<and> value \<noteq> JStr []
                              then makeTypeContentChild (jsToString value) None None None None
                              else makeTypeContentChild
                                     ([quote] @ jsToString value @ [quote]) None None None None)
                         values;
                     allowedValues1 =
                       (if length (filter (\<lambda>value. value \<in> set stringAllowValues) values)
                             = length values
                        then makeTypeContentChild ''string'' None None None None # allowedValues
                        else allowedValues)
                 in Some (makeTypeContentRoot UnionOp allowedValues1 None nm descr)
        | _ \<Rightarrow> Some (makeTypeContentChild ''string'' None None nm descr))"

text \<open>
  The test of an object key against \<open>/^[$A-Z_][0-9A-Z_$]*$/i\<close>: a first character that
  is a letter, \<open>$\<close> or \<open>_\<close>, then letters, digits, \<open>$\<close> and \<open>_\<close> to the end.
\<close>

definition isLetter :: "char \<Rightarrow> bool" where
  "isLetter c = ((CHR ''A'' \<le> c \<and> c \<le> CHR ''Z'') \<or> (CHR ''a'' \<le> c \<and> c \<le> CHR ''z''))"

definition isIdentStart :: "char \<Rightarrow> bool" where
  "isIdentStart c = (c = CHR ''$'' \<or> isLetter c \<or> c = CHR ''_'')"

definition isIdentPart :: "char \<Rightarrow> bool" where
  "isIdentPart c =
     ((CHR ''0'' \<le> c \<and> c \<le> CHR ''9'') \<or> isLetter c \<or> c = CHR ''_'' \<or> c = CHR ''$'')"

definition isIdentifier :: "string \<Rightarrow> bool" where
  "isIdentifier key = (case key of [] \<Rightarrow> False | c # cs \<Rightarrow> isIdentStart c \<and> list_all isIdentPart cs)"

text \<open>
  The object literal that \<open>parseObjects\<close> pushes for \<open>flags.unknown\<close>. It has no
  \<open>__isRoot\<close> field, so the renderer takes it for a leaf.
\<close>

definition unknownProperty :: TypeContent where
  "unknownProperty =
     TypeContentChild ''any'' None (Some True) (Some ''[x: string]'') (Some ''Unknown Property'')"

text \<open>The comparator that \<open>parseObjects\<close> hands to \<open>sort\<close>.\<close>

definition compareNames :: "TypeContent \<Rightarrow> TypeContent \<Rightarrow> int" where
  "compareNames a b =
     (if jsGt (name a) (name b) then 1
      else if jsLt (name a) (name b) then - 1
      else 0)"

text \<open>The node \<open>{ type: 'any' }\<close> that \<open>parseArray\<close> makes up for a missing item.\<close>

definition anyDescribe :: Describe where
  "anyDescribe = Describe ''any'' None None None None None"

text \<open>A description node is larger than each of its children.\<close>

lemma size_member_list: "x \<in> set xs \<Longrightarrow> size (x::Describe) \<le> size_list size xs"
  by (induction xs) auto

lemma size_member_entries:
  "(k, v) \<in> set kvs \<Longrightarrow> size (v::Describe) \<le> size_list (size_prod (\<lambda>x. 0) size) kvs"
  by (induction kvs) auto

text \<open>
  \<open>parseSchema\<close> and the three shape parsers that call it back. A result is \<open>Inr None\<close>
  for \<open>undefined\<close>. The diagnostic that \<open>parseSchema\<close> logs for an unsupported type is
  not modelled. When \<open>items\<close> is an empty array, \<open>details.items\<close> is truthy and
  \<open>details.items[0]\<close> is \<open>undefined\<close>; \<open>parseSchema\<close> then reads \<open>details.flags\<close> of
  \<open>undefined\<close> in \<open>getCommonDetails\<close>, a \<open>TypeError\<close>. \<open>parseAlternatives\<close> hands
  \<open>details.matches\<close> to \<open>filterMap\<close> without a test; when the key is absent the list
  to traverse is \<open>undefined\<close>, a \<open>TypeError\<close> again.
\<close>

function parseSchema :: "Describe \<Rightarrow> Settings \<Rightarrow> bool \<Rightarrow> string list \<Rightarrow> error + TypeContent option"
  and parseArray :: "Describe \<Rightarrow> Settings \<Rightarrow> error + TypeContent option"
  and parseAlternatives :: "Describe \<Rightarrow> Settings \<Rightarrow> error + TypeContent option"
  and parseObjects :: "Describe \<Rightarrow> Settings \<Rightarrow> error + TypeContent option"
where
  "parseSchema details settings useLabels ignoreLabels =
     (case getCommonDetails details settings of (lbl, descr, req) \<Rightarrow>
        if truthy lbl \<and> useLabels \<and> tmpl lbl \<notin> set ignoreLabels
        then Inr (Some (makeTypeContentChild (tmpl lbl) (Some [tmpl lbl]) (Some req) None descr))
        else if type details \<notin> set supportedJoiTypes then Inr None
        else
          (case (if type details = ''array'' then parseArray details settings
                 else if type details = ''string'' then Inr (parseStringSchema details settings)
                 else if type details = ''alternatives'' then parseAlternatives details settings
                 else if type details = ''object'' then parseObjects details settings
                 else Inr (parseBasicSchema details settings)) of
             Inl e \<Rightarrow> Inl e
           | Inr None \<Rightarrow> Inr None
           | Inr (Some parsedSchema) \<Rightarrow>
               Inr (Some (set_required (Some req)
                            (set_description descr (set_name lbl parsedSchema))))))"
| "parseArray (Describe ty fl al its ks ms) settings =
     (case getCommonDetails (Describe ty fl al its ks ms) settings of (nm, descr, _) \<Rightarrow>
        case (case its of
                None \<Rightarrow> parseSchema anyDescribe settings True []
              | Some [] \<Rightarrow> Inl TypeError
              | Some (item # _) \<Rightarrow> parseSchema item settings True []) of
          Inl e \<Rightarrow> Inl e
        | Inr None \<Rightarrow> Inr None
        | Inr (Some child) \<Rightarrow> Inr (Some (makeTypeContentRoot ListOp [child] None nm descr)))"
| "parseAlternatives (Describe ty fl al its ks ms) settings =
     (case getCommonDetails (Describe ty fl al its ks ms) settings of (lbl, descr, _) \<Rightarrow>
        let ignoreLabels = (if truthy lbl then [tmpl lbl] else [])
        in case (case ms of
                   None \<Rightarrow> Inl TypeError
                 | Some matches0 \<Rightarrow>
                     filterMap matches0
                       (\<lambda>match. parseSchema match settings True ignoreLabels)) of
             Inl e \<Rightarrow> Inl e
           | Inr cs \<Rightarrow>
               if length cs = 0 then Inr None
               else Inr (Some (makeTypeContentRoot UnionOp cs None lbl descr)))"
| "parseObjects (Describe ty fl al its ks ms) settings =
     (case filterMap (case ks of None \<Rightarrow> [] | Some kvs \<Rightarrow> kvs)
             (\<lambda>(key, value).
                case parseSchema value settings True [] of
                  Inl e \<Rightarrow> Inl e
                | Inr None \<Rightarrow> Inr None
                | Inr (Some parsedSchema) \<Rightarrow>
                    Inr (Some (set_name
                                 (Some (if isIdentifier key then key
                                        else [quote] @ key @ [quote]))
                                 parsedSchema))) of
        Inl e \<Rightarrow> Inl e
      | Inr cs \<Rightarrow>
          let cs1 = (if flag unknown (Describe ty fl al its ks ms) = Some True
                     then cs @ [unknownProperty] else cs);
              cs2 = (if sortPropertiesByName settings then sortBy compareNames cs1 else cs1)
          in case getCommonDetails (Describe ty fl al its ks ms) settings of (nm, descr, _) \<Rightarrow>
               Inr (Some (makeTypeContentRoot ObjectOp cs2 None nm descr)))"
  by pat_completeness auto

termination
proof (relation "measure (\<lambda>x. case x of
      Inl (Inl (d, s, u, i)) \<Rightarrow> 4 * size d + (if type d = ''array'' then 2 else 0) + 1
    | Inl (Inr (d, s)) \<Rightarrow> 4 * size d + 2
    | Inr (Inl (d, s)) \<Rightarrow> 4 * size d
    | Inr (Inr (d, s)) \<Rightarrow> 4 * size d)", goal_cases)
  case 1 show ?case by simp
next
  case 2 then show ?case by simp
next
  case 3 then show ?case by simp
next
  case 4 then show ?case by simp
next
  case (5 ty fl al its ks ms settings x y xa ya)
  then show ?case by (cases ks; cases ms) (simp_all add: anyDescribe_def)
next
  case (6 ty fl al its ks ms settings x y xa ya x2 x21 x22)
  then show ?case by simp
next
  case (7 ty fl al its ks ms settings x y xa ya xb x2 xc)
  then show ?case using size_member_list[of xc x2] by simp
next
  case (8 ty fl al its ks ms settings x xa y)
  then show ?case by (auto dest!: size_member_entries)
qed

declare parseSchema.simps [simp del]
declare parseArray.simps [simp del]
declare parseAlternatives.simps [simp del]
declare parseObjects.simps [simp del]
declare typeContentToTsHelper.simps [simp del]

section \<open>Notions of the specification\<close>

text \<open>
  The label short-circuit of \<open>parseSchema\<close>: a non-empty label, label-following enabled,
  and the label not in the ignore-list.
\<close>

definition labelShortCircuit :: "Describe \<Rightarrow> bool \<Rightarrow> string list \<Rightarrow> bool" where
  "labelShortCircuit details useLabels ignoreLabels =
     (case flag label details of
        None \<Rightarrow> False
      | Some l \<Rightarrow> l \<noteq> [] \<and> useLabels \<and> l \<notin> set ignoreLabels)"

text \<open>Required-ness of a node: its presence flag, or else the default of the settings.\<close>

definition requiredOf :: "Describe \<Rightarrow> Settings \<Rightarrow> bool" where
  "requiredOf details settings =
     (case flag presence details of
        None \<Rightarrow> defaultToRequired settings
      | Some p \<Rightarrow>
          if p = ''optional'' then False
          else if p = ''required'' then True
          else defaultToRequired settings)"

text \<open>The type text of a basic node: \<open>Date\<close> for \<open>date\<close>, else the type's own name.\<close>

definition baseTypeName :: "string \<Rightarrow> string" where
  "baseTypeName ty = (if ty = ''date'' then ''Date'' else ty)"

text \<open>
  An allowed value as the specification renders it: a string value as a single-quoted
  literal, any other value, \<open>null\<close> included, as a bare token.
\<close>

fun literalText :: "jsval \<Rightarrow> string" where
  "literalText (JStr s) = [quote] @ s @ [quote]"
| "literalText JNull = ''null''"
| "literalText (JBool b) = (if b then ''true'' else ''false'')"
| "literalText (JOther t) = t"

text \<open>A leaf that carries a text and no metadata.\<close>

definition plainLeaf :: "string \<Rightarrow> TypeContent" where
  "plainLeaf t = TypeContentChild t None None None None"

text \<open>
  The invariant of section 3 that the renderer relies on: every composite has one of the
  three join operations, and a \<open>list\<close> composite has exactly one child.
\<close>

fun wellFormed :: "TypeContent \<Rightarrow> bool" where
  "wellFormed (TypeContentChild c ct r n d) = True"
| "wellFormed (TypeContentRoot jo cs r n d) =
     ((\<forall>c \<in> set cs. wellFormed c) \<and>
      (case jo of ListOp \<Rightarrow> length cs = 1 | UnionOp \<Rightarrow> True | ObjectOp \<Rightarrow> True
       | OtherOp s \<Rightarrow> False))"


text \<open>The parses that produced a result, in order; a parse that did not is left out.\<close>

definition survivors :: "('a \<Rightarrow> error + 'b option) \<Rightarrow> 'a list \<Rightarrow> 'b list" where
  "survivors parse xs =
     concat (map (\<lambda>x. case parse x of Inr (Some y) \<Rightarrow> [y] | _ \<Rightarrow> []) xs)"

text \<open>
  The index-signature property as it stands in an interface body at a nesting depth: its
  documentation comment and its line, each indented.
\<close>

definition indexSignatureText :: "nat \<Rightarrow> string" where
  "indexSignatureText indentLevel =
     getIndentStr (indentLevel + 1) @ ''/**'' @ [newline]
     @ getIndentStr (indentLevel + 1) @ '' * Unknown Property'' @ [newline]
     @ getIndentStr (indentLevel + 1) @ '' */'' @ [newline]
     @ ''  '' @ getIndentStr indentLevel @ ''[x: string]: any;''"

text \<open>
  A description tree in which no node has an empty \<open>items\<close> array: the input on which
  \<open>parseArray\<close> finds either no \<open>items\<close> or a first item.
\<close>

fun noEmptyItems :: "Describe \<Rightarrow> bool" where
  "noEmptyItems (Describe ty fl al its ks ms) =
     (its \<noteq> Some []
      \<and> (\<forall>item \<in> set (case its of None \<Rightarrow> [] | Some is \<Rightarrow> is). noEmptyItems item)
      \<and> (\<forall>(key, value) \<in> set (case ks of None \<Rightarrow> [] | Some kvs \<Rightarrow> kvs). noEmptyItems value)
      \<and> (\<forall>match \<in> set (case ms of None \<Rightarrow> [] | Some l \<Rightarrow> l). noEmptyItems match))"

text \<open>
  A description tree in which every alternatives node has a \<open>matches\<close> array: the input
  on which \<open>parseAlternatives\<close> finds a list to traverse.
\<close>

fun matchesPresent :: "Describe \<Rightarrow> bool" where
  "matchesPresent (Describe ty fl al its ks ms) =
     ((ty = ''alternatives'' \<longrightarrow> ms \<noteq> None)
      \<and> (\<forall>item \<in> set (case its of None \<Rightarrow> [] | Some is \<Rightarrow> is). matchesPresent item)
      \<and> (\<forall>(key, value) \<in> set (case ks of None \<Rightarrow> [] | Some kvs \<Rightarrow> kvs). matchesPresent value)
      \<and> (\<forall>match \<in> set (case ms of None \<Rightarrow> [] | Some l \<Rightarrow> l). matchesPresent match))"

section \<open>Auxiliary facts\<close>

lemma getCommonDetails_eq:
  "getCommonDetails d s = (flag label d, flag fdescription d, requiredOf d s)"
  by (auto simp: getCommonDetails_def requiredOf_def Let_def split: option.splits)

lemma shortCircuit_iff:
  "(truthy (flag label d) \<and> ul \<and> tmpl (flag label d) \<notin> set il) = labelShortCircuit d ul il"
  by (auto simp: labelShortCircuit_def truthy_def tmpl_def split: option.splits)

lemma parseSchema_no_shortcut:
  assumes "\<not> labelShortCircuit d ul il"
  shows "parseSchema d s ul il =
     (if type d \<notin> set supportedJoiTypes then Inr None
      else
        (case (if type d = ''array'' then parseArray d s
               else if type d = ''string'' then Inr (parseStringSchema d s)
               else if type d = ''alternatives'' then parseAlternatives d s
               else if type d = ''object'' then parseObjects d s
               else Inr (parseBasicSchema d s)) of
           Inl e \<Rightarrow> Inl e
         | Inr None \<Rightarrow> Inr None
         | Inr (Some parsedSchema) \<Rightarrow>
             Inr (Some (set_required (Some (requiredOf d s))
                          (set_description (flag fdescription d)
                             (set_name (flag label d) parsedSchema))))))"
proof -
  have h: "\<not> (truthy (flag label d) \<and> ul \<and> tmpl (flag label d) \<notin> set il)"
    using assms shortCircuit_iff[of d ul il] by simp
  show ?thesis
    by (subst parseSchema.simps) (simp only: getCommonDetails_eq prod.case h if_False)
qed

lemma mapE_Inr_iff: "mapE f xs = Inr ys \<longleftrightarrow> list_all2 (\<lambda>x y. f x = Inr y) xs ys"
proof (induction xs arbitrary: ys)
  case Nil
  then show ?case by auto
next
  case (Cons x xs)
  show ?case
    by (cases ys) (auto simp: Cons.IH[symmetric] split: sum.splits)
qed

lemma mapE_total:
  assumes "\<And>x. x \<in> set xs \<Longrightarrow> \<exists>y. f x = Inr y"
  shows "\<exists>ys. mapE f xs = Inr ys"
  using assms
proof (induction xs)
  case Nil
  then show ?case by simp
next
  case (Cons x xs)
  then obtain y where y: "f x = Inr y" by auto
  from Cons obtain ys where "mapE f xs = Inr ys" by auto
  with y show ?case by simp
qed

lemma mapE_length: "mapE f xs = Inr ys \<Longrightarrow> length ys = length xs"
  by (simp add: mapE_Inr_iff list_all2_lengthD)

lemma mapE_member:
  "mapE f xs = Inr ys \<Longrightarrow> x \<in> set xs \<Longrightarrow> \<exists>y \<in> set ys. f x = Inr y"
  unfolding mapE_Inr_iff by (auto simp: list_all2_conv_all_nth in_set_conv_nth)

lemma helper_total:
  "wellFormed tc \<Longrightarrow> (de \<longrightarrow> truthy (name tc)) \<Longrightarrow>
     \<exists>t. typeContentToTsHelper ce tc de ind = Inr (t, description tc)"
proof (induction tc arbitrary: de ind)
  case (TypeContentChild c ct r n d)
  then show ?case by (simp add: typeContentToTsHelper.simps)
next
  case (TypeContentRoot jo cs r n d)
  have kids: "\<exists>t. typeContentToTsHelper ce c False i = Inr (t, description c)"
    if "c \<in> set cs" for c i
    using TypeContentRoot.IH[OF that, of False i] TypeContentRoot.prems(1) that by simp
  have nm: "\<not> (de \<and> \<not> truthy n)"
    using TypeContentRoot.prems(2) by simp
  show ?case
  proof (cases jo)
    case ListOp
    with TypeContentRoot.prems(1) obtain c where cs: "cs = [c]"
      by (cases cs) auto
    from kids[of c 0] cs obtain t where "typeContentToTsHelper ce c False 0 = Inr (t, description c)"
      by auto
    then show ?thesis using nm
      unfolding ListOp cs by (auto simp: typeContentToTsHelper.simps Let_def)
  next
    case UnionOp
    obtain ys where "mapE (\<lambda>child. typeContentToTsHelper ce child False 0) cs = Inr ys"
      using mapE_total[of cs "\<lambda>child. typeContentToTsHelper ce child False 0"] kids by blast
    then show ?thesis using nm
      unfolding UnionOp by (auto simp: typeContentToTsHelper.simps Let_def)
  next
    case ObjectOp
    let ?f = "\<lambda>child.
                             case typeContentToTsHelper ce child False
                                    (ind + 1) of
                               Inl e \<Rightarrow> Inl e
                             | Inr (childContent, childDescription) \<Rightarrow>
                                 let descriptionStr =
                                       getDescriptionStr ce (name child)
                                         childDescription (ind + 1);
                                     optionalStr =
                                       (if required child = Some True then [] else ''?'')
                                 in Inr (descriptionStr @ ''  '' @ getIndentStr ind
                                       @ tmpl (name child) @ optionalStr @ '': ''
                                       @ childContent @ '';'')"
    have "\<exists>y. ?f c = Inr y" if "c \<in> set cs" for c
      using kids[OF that, of "ind + 1"] by (auto simp: Let_def)
    then obtain ys where "mapE ?f cs = Inr ys"
      using mapE_total[of cs ?f] by blast
    then show ?thesis using nm
      unfolding ObjectOp by (auto simp: typeContentToTsHelper.simps)
  next
    case (OtherOp s)
    with TypeContentRoot.prems(1) show ?thesis by simp
  qed
qed

lemma wellFormed_set [simp]:
  "wellFormed (set_name v t) = wellFormed t"
  "wellFormed (set_description v t) = wellFormed t"
  "wellFormed (set_required b t) = wellFormed t"
  by (cases t; simp)+

lemma filterMap_member:
  "filterMap xs f = Inr ys \<Longrightarrow> y \<in> set ys \<Longrightarrow> \<exists>x \<in> set xs. f x = Inr (Some y)"
proof (induction xs arbitrary: ys)
  case Nil
  then show ?case by simp
next
  case (Cons x xs)
  then show ?case
    by (auto split: sum.splits option.splits)
qed

lemma set_insertBy: "set (insertBy cmp x xs) = insert x (set xs)"
  by (induction xs) auto

lemma set_sortBy: "set (sortBy cmp xs) = set xs"
  by (induction xs) (auto simp: set_insertBy)

lemma wellFormed_basic: "parseBasicSchema d s = Some tc \<Longrightarrow> wellFormed tc"
  by (auto simp: parseBasicSchema_def getCommonDetails_eq makeTypeContentChild_def
      makeTypeContentRoot_def Let_def split: option.splits list.splits if_splits)

lemma wellFormed_string: "parseStringSchema d s = Some tc \<Longrightarrow> wellFormed tc"
  by (auto simp: parseStringSchema_def getCommonDetails_eq makeTypeContentChild_def
      makeTypeContentRoot_def Let_def split: option.splits list.splits if_splits)

lemma wellFormed_parse:
  "(\<forall>tc. parseSchema d s ul il = Inr (Some tc) \<longrightarrow> wellFormed tc)"
  "(\<forall>tc. parseArray d1 s1 = Inr (Some tc) \<longrightarrow> wellFormed tc)"
  "(\<forall>tc. parseAlternatives d2 s2 = Inr (Some tc) \<longrightarrow> wellFormed tc)"
  "(\<forall>tc. parseObjects d3 s3 = Inr (Some tc) \<longrightarrow> wellFormed tc)"
proof (induction d s ul il and d1 s1 and d2 s2 and d3 s3
    rule: parseSchema_parseArray_parseAlternatives_parseObjects.induct)
  case (1 details settings useLabels ignoreLabels)
  obtain x y xa ya where g: "(x, y) = getCommonDetails details settings" "(xa, ya) = y"
    by (metis prod.collapse)
  then have x: "x = flag label details"
    by (simp add: getCommonDetails_eq)
  show ?case
  proof (intro allI impI)
    fix tc
    assume a: "parseSchema details settings useLabels ignoreLabels = Inr (Some tc)"
    show "wellFormed tc"
    proof (cases "truthy x \<and> useLabels \<and> tmpl x \<notin> set ignoreLabels")
      case True
      with a x show ?thesis
        by (auto simp: parseSchema.simps getCommonDetails_eq makeTypeContentChild_def)
    next
      case False
      then have n: "\<not> labelShortCircuit details useLabels ignoreLabels"
        using shortCircuit_iff[of details useLabels ignoreLabels] x by simp
      have sup: "\<not> type details \<notin> set supportedJoiTypes"
        using a unfolding parseSchema_no_shortcut[OF n] by (auto split: if_splits)
      note ih = "1.IH"[OF g False sup]
      show ?thesis
        using a ih wellFormed_basic wellFormed_string
        unfolding parseSchema_no_shortcut[OF n]
        by (auto split: if_splits sum.splits option.splits)
    qed
  qed
next
  case (2 ty fl al its ks ms settings)
  obtain x y xa ya where g: "(x, y) = getCommonDetails (Describe ty fl al its ks ms) settings"
    "(xa, ya) = y"
    by (metis prod.collapse)
  note ih = "2.IH"[OF g]
  show ?case
    using ih
    by (auto simp: parseArray.simps getCommonDetails_eq makeTypeContentRoot_def
        split: option.splits list.splits sum.splits)
next
  case (3 ty fl al its ks ms settings)
  obtain x y xa ya where g: "(x, y) = getCommonDetails (Describe ty fl al its ks ms) settings"
    "(xa, ya) = y"
    by (metis prod.collapse)
  note ih = "3.IH"[OF g refl]
  show ?case
  proof (intro allI impI)
    fix tc
    assume a: "parseAlternatives (Describe ty fl al its ks ms) settings = Inr (Some tc)"
    then obtain ms0 cs where ms: "ms = Some ms0" and
      cs: "filterMap ms0 (\<lambda>match. parseSchema match settings True (if truthy x then [tmpl x] else [])) = Inr cs"
      and tc: "tc = TypeContentRoot UnionOp cs None (flag label (Describe ty fl al its ks ms))
                      (flag fdescription (Describe ty fl al its ks ms))"
      using g by (auto simp: parseAlternatives.simps getCommonDetails_eq makeTypeContentRoot_def
          Let_def split: sum.splits if_splits option.splits)
    have "wellFormed c" if "c \<in> set cs" for c
      using filterMap_member[OF cs that] ih[OF ms] by auto
    then show "wellFormed tc"
      by (simp add: tc)
  qed
next
  case (4 ty fl al its ks ms settings)
  let ?f = "\<lambda>(key, value).
                case parseSchema value settings True [] of
                  Inl e \<Rightarrow> Inl e
                | Inr None \<Rightarrow> Inr None
                | Inr (Some parsedSchema) \<Rightarrow>
                    Inr (Some (set_name
                                 (Some (if isIdentifier key then key
                                        else [quote] @ key @ [quote]))
                                 parsedSchema))"
  show ?case
  proof (intro allI impI)
    fix tc
    assume a: "parseObjects (Describe ty fl al its ks ms) settings = Inr (Some tc)"
    then obtain cs where
      cs: "filterMap (case ks of None \<Rightarrow> [] | Some kvs \<Rightarrow> kvs) ?f = Inr cs"
      by (auto simp: parseObjects.simps split: sum.splits)
    have wf: "wellFormed c" if "c \<in> set cs" for c
    proof -
      from filterMap_member[OF cs that] obtain k v
        where kv: "(k, v) \<in> set (case ks of None \<Rightarrow> [] | Some kvs \<Rightarrow> kvs)"
          and fk: "?f (k, v) = Inr (Some c)"
        by auto
      from fk obtain p where "parseSchema v settings True [] = Inr (Some p)"
        and "c = set_name (Some (if isIdentifier k then k else [quote] @ k @ [quote])) p"
        by (auto split: sum.splits option.splits)
      with "4.IH"[OF kv refl] show ?thesis by simp
    qed
    from a cs show "wellFormed tc"
      using wf
      by (auto simp: parseObjects.simps getCommonDetails_eq makeTypeContentRoot_def Let_def
          set_sortBy unknownProperty_def)
  qed
qed

lemma filterMap_survivors:
  "(\<And>x. x \<in> set xs \<Longrightarrow> \<exists>r. f x = Inr r) \<Longrightarrow> filterMap xs f = Inr (survivors f xs)"
proof (induction xs)
  case Nil
  then show ?case by (simp add: survivors_def)
next
  case (Cons x xs)
  then obtain r where r: "f x = Inr r" by auto
  have "filterMap xs f = Inr (survivors f xs)"
    using Cons by simp
  then show ?case
    using r by (cases r) (simp_all add: survivors_def)
qed



lemma name_set_name [simp]: "name (set_name v t) = v"
  by (cases t) simp_all

lemma children_set [simp]:
  "children (set_name v (TypeContentRoot jo cs r n d)) = cs"
  by simp

lemma compareNames_le:
  "name a = Some x \<Longrightarrow> name b = Some y \<Longrightarrow> (compareNames a b \<le> 0) = (x \<le> y)"
  by (auto simp: compareNames_def jsGt_def jsLt_def)

lemma insertBy_insort_key:
  "name x \<noteq> None \<Longrightarrow> \<forall>t \<in> set ys. name t \<noteq> None \<Longrightarrow>
     insertBy compareNames x ys = insort_key (\<lambda>t. the (name t)) x ys"
  by (induction ys) (auto simp: compareNames_le)

lemma sortBy_sort_key:
  "\<forall>t \<in> set xs. name t \<noteq> None \<Longrightarrow> sortBy compareNames xs = sort_key (\<lambda>t. the (name t)) xs"
  by (induction xs) (auto simp: insertBy_insort_key)

lemma sortBy_adjacent:
  assumes "\<forall>t \<in> set xs. name t \<noteq> None" and "Suc i < length (sortBy compareNames xs)"
  shows "\<exists>a b. name (sortBy compareNames xs ! i) = Some a
              \<and> name (sortBy compareNames xs ! Suc i) = Some b \<and> a \<le> b"
proof -
  let ?ys = "sortBy compareNames xs"
  have eq: "?ys = sort_key (\<lambda>t. the (name t)) xs"
    using assms(1) by (rule sortBy_sort_key)
  have "sorted (map (\<lambda>t. the (name t)) ?ys)"
    unfolding eq by (rule sorted_sort_key)
  then have le: "map (\<lambda>t. the (name t)) ?ys ! i \<le> map (\<lambda>t. the (name t)) ?ys ! Suc i"
    using assms(2) by (simp add: sorted_iff_nth_Suc del: nth_map)
  have mem: "?ys ! i \<in> set xs" "?ys ! Suc i \<in> set xs"
    using assms(2) nth_mem[of i ?ys] nth_mem[of "Suc i" ?ys] by (simp_all add: set_sortBy)
  then obtain a b where ab: "name (?ys ! i) = Some a" "name (?ys ! Suc i) = Some b"
    using assms(1) by (metis not_Some_eq)
  with le assms(2) have "a \<le> b" by simp
  with ab show ?thesis by simp
qed

lemma parseObjects_shape:
  assumes "parseObjects (Describe ty fl al its ks ms) s = Inr res"
  shows "\<exists>cs. filterMap (case ks of None \<Rightarrow> [] | Some kvs \<Rightarrow> kvs)
             (\<lambda>(key, value).
                case parseSchema value s True [] of
                  Inl e \<Rightarrow> Inl e
                | Inr None \<Rightarrow> Inr None
                | Inr (Some parsedSchema) \<Rightarrow>
                    Inr (Some (set_name
                                 (Some (if isIdentifier key then key
                                        else [quote] @ key @ [quote]))
                                 parsedSchema))) = Inr cs
          \<and> (\<forall>c \<in> set cs. name c \<noteq> None)
          \<and> res = Some (TypeContentRoot ObjectOp
                 (let cs1 = (if flag unknown (Describe ty fl al its ks ms) = Some True
                     then cs @ [unknownProperty] else cs)
                  in if sortPropertiesByName s then sortBy compareNames cs1 else cs1)
                 None (flag label (Describe ty fl al its ks ms))
                 (flag fdescription (Describe ty fl al its ks ms)))"
proof -
  let ?f = "\<lambda>(key, value).
                case parseSchema value s True [] of
                  Inl e \<Rightarrow> Inl e
                | Inr None \<Rightarrow> Inr None
                | Inr (Some parsedSchema) \<Rightarrow>
                    Inr (Some (set_name
                                 (Some (if isIdentifier key then key
                                        else [quote] @ key @ [quote]))
                                 parsedSchema))"
  let ?kvs = "case ks of None \<Rightarrow> [] | Some kvs \<Rightarrow> kvs"
  from assms obtain cs where cs: "filterMap ?kvs ?f = Inr cs"
    by (auto simp: parseObjects.simps split: sum.splits)
  have nm: "name c \<noteq> None" if "c \<in> set cs" for c
  proof -
    from filterMap_member[OF cs that] obtain k v where "?f (k, v) = Inr (Some c)"
      by auto
    then show ?thesis
      by (auto split: sum.splits option.splits)
  qed
  from assms cs have "res = Some (TypeContentRoot ObjectOp
                 (let cs1 = (if flag unknown (Describe ty fl al its ks ms) = Some True
                     then cs @ [unknownProperty] else cs)
                  in if sortPropertiesByName s then sortBy compareNames cs1 else cs1)
                 None (flag label (Describe ty fl al its ks ms))
                 (flag fdescription (Describe ty fl al its ks ms)))"
    by (simp add: parseObjects.simps getCommonDetails_eq makeTypeContentRoot_def Let_def)
  with cs nm show ?thesis by blast
qed

lemma sublist_embed: "sublist x y \<Longrightarrow> sublist x (a @ y @ b)"
proof -
  assume "sublist x y"
  then obtain ps ss where "y = ps @ x @ ss"
    by (auto simp: sublist_def)
  then have "a @ y @ b = (a @ ps) @ x @ (ss @ b)"
    by simp
  then show ?thesis
    unfolding sublist_def by blast
qed

lemma sublist_join: "x \<in> set xs \<Longrightarrow> sublist x (join sep xs)"
proof (induction sep xs rule: join.induct)
  case (1 sep)
  then show ?case by simp
next
  case (2 sep x')
  then show ?case by simp
next
  case (3 sep x' y ys)
  show ?case
  proof (cases "x = x'")
    case True
    then show ?thesis by simp
  next
    case False
    with 3 have "sublist x (join sep (y # ys))" by simp
    then have "sublist x ((x' @ sep) @ join sep (y # ys) @ [])"
      by (rule sublist_embed)
    then show ?thesis by simp
  qed
qed

lemma object_render_contains:
  assumes ok: "typeContentToTsHelper ce (TypeContentRoot ObjectOp cs r n d) de ind = Inr (t, dd)"
    and mem: "unknownProperty \<in> set cs"
  shows "sublist (indexSignatureText ind) t"
proof -
  let ?f = "\<lambda>child.
                             case typeContentToTsHelper ce child False
                                    (ind + 1) of
                               Inl e \<Rightarrow> Inl e
                             | Inr (childContent, childDescription) \<Rightarrow>
                                 let descriptionStr =
                                       getDescriptionStr ce (name child)
                                         childDescription (ind + 1);
                                     optionalStr =
                                       (if required child = Some True then [] else ''?'')
                                 in Inr (descriptionStr @ ''  '' @ getIndentStr ind
                                       @ tmpl (name child) @ optionalStr @ '': ''
                                       @ childContent @ '';'')"
  have ne: "cs \<noteq> []" using mem by auto
  from ok ne obtain lines where lines: "mapE ?f cs = Inr lines"
    and t: "t = (if de then ''export interface '' @ tmpl n @ '' '' else [])
               @ ''{'' @ [newline] @ join [newline] lines @ [newline] @ getIndentStr ind @ ''}''"
    by (auto simp: typeContentToTsHelper.simps split: if_splits sum.splits)
  have "?f unknownProperty = Inr (indexSignatureText ind)"
    by (simp add: unknownProperty_def typeContentToTsHelper.simps getDescriptionStr_def
        truthy_def tmpl_def indexSignatureText_def)
  with mapE_member[OF lines mem] have "indexSignatureText ind \<in> set lines"
    by auto
  then have "sublist (indexSignatureText ind) (join [newline] lines)"
    by (rule sublist_join)
  then have "sublist (indexSignatureText ind)
     (((if de then ''export interface '' @ tmpl n @ '' '' else []) @ ''{'' @ [newline])
        @ join [newline] lines @ ([newline] @ getIndentStr ind @ ''}''))"
    by (rule sublist_embed)
  then show ?thesis
    unfolding t by simp
qed

text \<open>The equations that evaluate the parser on a given description node.\<close>

lemmas parse_eval =
  parseSchema.simps parseArray.simps parseAlternatives.simps parseObjects.simps
  parseStringSchema_def parseBasicSchema_def getCommonDetails_def flag_def truthy_def tmpl_def
  supportedJoiTypes_def makeTypeContentChild_def makeTypeContentRoot_def isIdentifier_def
  isIdentStart_def isIdentPart_def isLetter_def compareNames_def jsGt_def jsLt_def
  less_char_def less_eq_char_def unknownProperty_def anyDescribe_def

text \<open>On a tree without an empty \<open>items\<close> array the parser raises nothing.\<close>

lemma parse_total:
  "noEmptyItems d \<and> matchesPresent d \<longrightarrow> (\<exists>res. parseSchema d s ul il = Inr res)"
  "noEmptyItems d1 \<and> matchesPresent d1 \<longrightarrow> (\<exists>res. parseArray d1 s1 = Inr res)"
  "noEmptyItems d2 \<and> matchesPresent d2 \<and> matches d2 \<noteq> None \<longrightarrow>
     (\<exists>res. parseAlternatives d2 s2 = Inr res)"
  "noEmptyItems d3 \<and> matchesPresent d3 \<longrightarrow> (\<exists>res. parseObjects d3 s3 = Inr res)"
proof (induction d s ul il and d1 s1 and d2 s2 and d3 s3
    rule: parseSchema_parseArray_parseAlternatives_parseObjects.induct)
  case (1 details settings useLabels ignoreLabels)
  obtain x y xa ya where g: "(x, y) = getCommonDetails details settings" "(xa, ya) = y"
    by (metis prod.collapse)
  then have x: "x = flag label details"
    by (simp add: getCommonDetails_eq)
  show ?case
  proof
    assume ne: "noEmptyItems details \<and> matchesPresent details"
    show "\<exists>res. parseSchema details settings useLabels ignoreLabels = Inr res"
    proof (cases "truthy x \<and> useLabels \<and> tmpl x \<notin> set ignoreLabels")
      case True
      with x show ?thesis
        by (auto simp: parseSchema.simps getCommonDetails_eq)
    next
      case False
      then have n: "\<not> labelShortCircuit details useLabels ignoreLabels"
        using shortCircuit_iff[of details useLabels ignoreLabels] x by simp
      show ?thesis
      proof (cases "type details \<notin> set supportedJoiTypes")
        case True
        then show ?thesis
          unfolding parseSchema_no_shortcut[OF n] by simp
      next
        case sup: False
        note ih = "1.IH"[OF g False sup]
        have mp: "type details = ''alternatives'' \<Longrightarrow> matches details \<noteq> None"
          using ne by (cases details) auto
        have "\<exists>r. (if type details = ''array'' then parseArray details settings
               else if type details = ''string'' then Inr (parseStringSchema details settings)
               else if type details = ''alternatives'' then parseAlternatives details settings
               else if type details = ''object'' then parseObjects details settings
               else Inr (parseBasicSchema details settings)) = Inr r"
          using ih ne mp by auto
        then obtain r where r: "(if type details = ''array'' then parseArray details settings
               else if type details = ''string'' then Inr (parseStringSchema details settings)
               else if type details = ''alternatives'' then parseAlternatives details settings
               else if type details = ''object'' then parseObjects details settings
               else Inr (parseBasicSchema details settings)) = Inr r"
          by blast
        show ?thesis
          unfolding parseSchema_no_shortcut[OF n] r using sup
          by (cases r) simp_all
      qed
    qed
  qed
next
  case (2 ty fl al its ks ms settings)
  obtain x y xa ya where g: "(x, y) = getCommonDetails (Describe ty fl al its ks ms) settings"
    "(xa, ya) = y"
    by (metis prod.collapse)
  note ih = "2.IH"[OF g]
  have any: "noEmptyItems anyDescribe \<and> matchesPresent anyDescribe"
    by (simp add: anyDescribe_def)
  show ?case
    using ih any
    by (auto simp: parseArray.simps getCommonDetails_eq
        split: option.splits list.splits sum.splits)
next
  case (3 ty fl al its ks ms settings)
  obtain x y xa ya where g: "(x, y) = getCommonDetails (Describe ty fl al its ks ms) settings"
    "(xa, ya) = y"
    by (metis prod.collapse)
  note ih = "3.IH"[OF g refl]
  show ?case
  proof
    assume ne: "noEmptyItems (Describe ty fl al its ks ms)
                  \<and> matchesPresent (Describe ty fl al its ks ms)
                  \<and> matches (Describe ty fl al its ks ms) \<noteq> None"
    then obtain ms0 where ms: "ms = Some ms0"
      by auto
    let ?il = "if truthy (flag label (Describe ty fl al its ks ms))
               then [tmpl (flag label (Describe ty fl al its ks ms))] else []"
    have x: "x = flag label (Describe ty fl al its ks ms)"
      using g by (simp add: getCommonDetails_eq)
    have "\<exists>r. parseSchema m settings True ?il = Inr r" if "m \<in> set ms0" for m
      using ih[OF ms that] ne that unfolding x ms by auto
    from filterMap_survivors[of ms0 "\<lambda>m. parseSchema m settings True ?il", OF this]
    have fm: "filterMap ms0 (\<lambda>m. parseSchema m settings True ?il)
                = Inr (survivors (\<lambda>m. parseSchema m settings True ?il) ms0)" .
    show "\<exists>res. parseAlternatives (Describe ty fl al its ks ms) settings = Inr res"
      unfolding ms parseAlternatives.simps getCommonDetails_eq prod.case Let_def option.case
        fm[unfolded ms]
      by simp
  qed
next
  case (4 ty fl al its ks ms settings)
  let ?f = "\<lambda>(key, value).
                case parseSchema value settings True [] of
                  Inl e \<Rightarrow> Inl e
                | Inr None \<Rightarrow> Inr None
                | Inr (Some parsedSchema) \<Rightarrow>
                    Inr (Some (set_name
                                 (Some (if isIdentifier key then key
                                        else [quote] @ key @ [quote]))
                                 parsedSchema))"
  let ?kvs = "case ks of None \<Rightarrow> [] | Some kvs \<Rightarrow> kvs"
  show ?case
  proof
    assume ne: "noEmptyItems (Describe ty fl al its ks ms)
                  \<and> matchesPresent (Describe ty fl al its ks ms)"
    have "\<exists>r. ?f kv = Inr r" if "kv \<in> set ?kvs" for kv
    proof -
      obtain k v where kv: "kv = (k, v)" by (cases kv)
      from ne that kv have "noEmptyItems v \<and> matchesPresent v" by auto
      with "4.IH"[OF that kv[symmetric]] obtain r where "parseSchema v settings True [] = Inr r"
        by auto
      then show ?thesis
        unfolding kv by (cases r) auto
    qed
    from filterMap_survivors[of ?kvs ?f, OF this]
    show "\<exists>res. parseObjects (Describe ty fl al its ks ms) settings = Inr res"
      by (simp add: parseObjects.simps getCommonDetails_eq Let_def)
  qed
qed

text \<open>The renderer leaves the tree as it found it, and its outcome is that of the function.\<close>

lemma mapS_pure:
  "(\<And>x. x \<in> set xs \<Longrightarrow> f x = (g x, x)) \<Longrightarrow> mapS f xs = (mapE g xs, xs)"
  by (induction xs) (auto split: sum.splits)

lemma helperS_pure:
  "typeContentToTsHelperS ce tc de ind = (typeContentToTsHelper ce tc de ind, tc)"
proof (induction tc arbitrary: de ind)
  case (TypeContentChild c ct r n d)
  show ?case
    by (simp add: typeContentToTsHelperS.simps typeContentToTsHelper.simps)
next
  case (TypeContentRoot jo cs r n d)
  have plain: "mapS (\<lambda>child. typeContentToTsHelperS ce child False 0) cs
                 = (mapE (\<lambda>child. typeContentToTsHelper ce child False 0) cs, cs)"
    by (rule mapS_pure) (simp add: TypeContentRoot.IH)
  let ?fS = "\<lambda>child.
                    case typeContentToTsHelperS ce child False (ind + 1) of
                      (Inl e, child') \<Rightarrow> (Inl e, child')
                    | (Inr (childContent, childDescription), child') \<Rightarrow>
                        (let descriptionStr =
                               getDescriptionStr ce (name child')
                                 childDescription (ind + 1);
                             optionalStr =
                               (if required child' = Some True then [] else ''?'')
                         in Inr (descriptionStr @ ''  '' @ getIndentStr ind
                               @ tmpl (name child') @ optionalStr @ '': ''
                               @ childContent @ '';''),
                         child')"
  let ?f = "\<lambda>child.
                             case typeContentToTsHelper ce child False
                                    (ind + 1) of
                               Inl e \<Rightarrow> Inl e
                             | Inr (childContent, childDescription) \<Rightarrow>
                                 let descriptionStr =
                                       getDescriptionStr ce (name child)
                                         childDescription (ind + 1);
                                     optionalStr =
                                       (if required child = Some True then [] else ''?'')
                                 in Inr (descriptionStr @ ''  '' @ getIndentStr ind
                                       @ tmpl (name child) @ optionalStr @ '': ''
                                       @ childContent @ '';'')"
  have "?fS child = (?f child, child)" if "child \<in> set cs" for child
    by (simp add: TypeContentRoot.IH[OF that] Let_def split: sum.splits prod.splits)
  then have props: "mapS ?fS cs = (mapE ?f cs, cs)"
    by (rule mapS_pure)
  show ?case
  proof (cases jo)
    case ListOp
    show ?thesis
      unfolding ListOp typeContentToTsHelperS.simps typeContentToTsHelper.simps plain
      by (simp split: sum.splits list.splits)
  next
    case UnionOp
    show ?thesis
      unfolding UnionOp typeContentToTsHelperS.simps typeContentToTsHelper.simps plain
      by (simp split: sum.splits)
  next
    case ObjectOp
    show ?thesis
      unfolding ObjectOp typeContentToTsHelperS.simps typeContentToTsHelper.simps props
      by (simp split: sum.splits)
  next
    case (OtherOp x)
    show ?thesis
      unfolding OtherOp typeContentToTsHelperS.simps typeContentToTsHelper.simps
      by simp
  qed
qed

lemma typeContentToTsS_pure:
  "typeContentToTsS ce tc de = (typeContentToTs ce tc de, tc)"
  by (simp add: typeContentToTsS_def typeContentToTs_def helperS_pure split: sum.splits)

section \<open>Export of an unnamed node\<close>




section \<open>Arrays\<close>

text \<open>
  C2, at the input where the code departs from it: an array node whose \<open>items\<close> is the
  empty array raises a \<open>TypeError\<close>, where the same node without \<open>items\<close> gives the
  list of \<open>any\<close>.
\<close>

theorem parse_array_empty_items_raises:
  "parseSchema (Describe ''array'' None None (Some []) None None)
     \<lparr>defaultToRequired = False, sortPropertiesByName = False\<rparr> True [] = Inl TypeError
   \<and> parseSchema (Describe ''array'' None None None None None)
       \<lparr>defaultToRequired = False, sortPropertiesByName = False\<rparr> True []
     = Inr (Some (TypeContentRoot ListOp [TypeContentChild ''any'' None (Some False) None None]
                    (Some False) None None))
   \<and> typeContentToTs False
       (TypeContentRoot ListOp [TypeContentChild ''any'' None (Some False) None None]
          (Some False) None None) False
     = Inr ''any[]''"
  by (simp add: parse_eval typeContentToTs_def typeContentToTsHelper.simps getDescriptionStr_def)

text \<open>
  C3: when the only child of a \<open>list\<close> composite renders to a text with the union
  operator \<open>|\<close> in it, the render of the list is that text in parentheses followed by
  \<open>[]\<close>, inside the type alias when export is requested. The description node
  \<open>array(items=[alternatives(matches=[string, number])])\<close> parses to a tree that renders
  as \<open>(string | number)[]\<close>.
\<close>

theorem list_of_union_parenthesized:
  "(typeContentToTsHelper ce child False 0 = Inr (t, cd) \<and> CHR ''|'' \<in> set t \<longrightarrow>
      typeContentToTsHelper ce (TypeContentRoot ListOp [child] r n d) False ind
        = Inr (''('' @ t @ '')[]'', d)
      \<and> (truthy n \<longrightarrow>
           typeContentToTsHelper ce (TypeContentRoot ListOp [child] r n d) True ind
             = Inr (''export type '' @ tmpl n @ '' = ('' @ t @ '')[];'', d)))
   \<and> (\<exists>tc. parseSchema
               (Describe ''array'' None None
                  (Some [Describe ''alternatives'' None None None None
                           (Some [Describe ''string'' None None None None None,
                                  Describe ''number'' None None None None None])])
                  None None)
               s ul il = Inr (Some tc)
           \<and> typeContentToTsHelper ce tc False 0 = Inr (''(string | number)[]'', None)
           \<and> typeContentToTs False tc False = Inr ''(string | number)[]'')"
proof (intro conjI impI)
  assume a: "typeContentToTsHelper ce child False 0 = Inr (t, cd) \<and> CHR ''|'' \<in> set t"
  then show "typeContentToTsHelper ce (TypeContentRoot ListOp [child] r n d) False ind
        = Inr (''('' @ t @ '')[]'', d)"
    by (simp add: typeContentToTsHelper.simps)
  assume "truthy n"
  with a show "typeContentToTsHelper ce (TypeContentRoot ListOp [child] r n d) True ind
             = Inr (''export type '' @ tmpl n @ '' = ('' @ t @ '')[];'', d)"
    by (simp add: typeContentToTsHelper.simps)
next
  show "\<exists>tc. parseSchema
               (Describe ''array'' None None
                  (Some [Describe ''alternatives'' None None None None
                           (Some [Describe ''string'' None None None None None,
                                  Describe ''number'' None None None None None])])
                  None None)
               s ul il = Inr (Some tc)
           \<and> typeContentToTsHelper ce tc False 0 = Inr (''(string | number)[]'', None)
           \<and> typeContentToTs False tc False = Inr ''(string | number)[]''"
    by (simp add: parseSchema.simps parseArray.simps parseAlternatives.simps
        parseBasicSchema_def parseStringSchema_def getCommonDetails_def flag_def truthy_def
        tmpl_def supportedJoiTypes_def makeTypeContentRoot_def makeTypeContentChild_def
        typeContentToTs_def typeContentToTsHelper.simps getDescriptionStr_def)
qed

theorem list_of_union_parenthesized_witness:
  "typeContentToTsHelper False
     (TypeContentRoot UnionOp
        [TypeContentChild ''A'' None None None None, TypeContentChild ''B'' None None None None]
        None None None) False 0 = Inr (''A | B'', None)
   \<and> CHR ''|'' \<in> set ''A | B''
   \<and> typeContentToTsHelper False
        (TypeContentRoot ListOp
           [TypeContentRoot UnionOp
              [TypeContentChild ''A'' None None None None,
               TypeContentChild ''B'' None None None None]
              None None None]
           None (Some ''AB'') None) False 0 = Inr (''(A | B)[]'', None)
   \<and> truthy (Some ''AB'')
   \<and> typeContentToTsHelper False
        (TypeContentRoot ListOp
           [TypeContentRoot UnionOp
              [TypeContentChild ''A'' None None None None,
               TypeContentChild ''B'' None None None None]
              None None None]
           None (Some ''AB'') None) True 0 = Inr (''export type AB = (A | B)[];'', None)"
proof -
  have h: "typeContentToTsHelper False
     (TypeContentRoot UnionOp
        [TypeContentChild ''A'' None None None None, TypeContentChild ''B'' None None None None]
        None None None) False 0 = Inr (''A | B'', None)"
    by (simp add: typeContentToTsHelper.simps)
  have t: "truthy (Some ''AB'')"
    by (simp add: truthy_def)
  show ?thesis
    using h t list_of_union_parenthesized
      [of False "TypeContentRoot UnionOp
        [TypeContentChild ''A'' None None None None, TypeContentChild ''B'' None None None None]
        None None None" "''A | B''" None None "Some ''AB''" None 0]
    by (simp add: tmpl_def)
qed

section \<open>Allowed values\<close>

text \<open>
  C4: a string node whose \<open>allow\<close> list is exactly the empty string, and that is not
  short-circuited by its label, parses to the leaf \<open>string\<close>, the same result as for the
  node without an \<open>allow\<close> list. The type text of that leaf is \<open>string\<close> under every
  setting of the renderer; the entry point puts a documentation comment in front of it
  only when the node has a description or \<open>commentEverything\<close> is set.
\<close>

theorem string_only_empty_allow:
  assumes "\<not> labelShortCircuit (Describe ''string'' fl (Some [JStr []]) its ks ms) ul il"
  shows "\<exists>tc. parseSchema (Describe ''string'' fl (Some [JStr []]) its ks ms) s ul il
                 = Inr (Some tc)
           \<and> tc = TypeContentChild ''string'' None
                    (Some (requiredOf (Describe ''string'' fl None its ks ms) s))
                    (flag label (Describe ''string'' fl None its ks ms))
                    (flag fdescription (Describe ''string'' fl None its ks ms))
           \<and> parseSchema (Describe ''string'' fl None its ks ms) s ul il = Inr (Some tc)
           \<and> typeContentToTsHelper ce tc de ind = Inr (''string'', description tc)
           \<and> (\<not> truthy (description tc) \<longrightarrow> typeContentToTs False tc de = Inr ''string'')"
proof -
  have n: "\<not> labelShortCircuit (Describe ''string'' fl None its ks ms) ul il"
    using assms by (simp add: labelShortCircuit_def flag_def)
  show ?thesis
    unfolding parseSchema_no_shortcut[OF assms] parseSchema_no_shortcut[OF n]
    by (simp add: supportedJoiTypes_def parseStringSchema_def getCommonDetails_eq
        makeTypeContentChild_def requiredOf_def flag_def typeContentToTsHelper.simps
        typeContentToTs_def getDescriptionStr_def)
qed

theorem string_only_empty_allow_witness:
  "\<not> labelShortCircuit (Describe ''string'' None (Some [JStr []]) None None None) True []
   \<and> parseSchema (Describe ''string'' None (Some [JStr []]) None None None)
         \<lparr>defaultToRequired = True, sortPropertiesByName = True\<rparr> True []
       = Inr (Some (TypeContentChild ''string'' None (Some True) None None))
   \<and> parseSchema (Describe ''string'' None None None None None)
         \<lparr>defaultToRequired = True, sortPropertiesByName = True\<rparr> True []
       = Inr (Some (TypeContentChild ''string'' None (Some True) None None))
   \<and> typeContentToTsHelper True (TypeContentChild ''string'' None (Some True) None None) True 0
       = Inr (''string'', None)
   \<and> \<not> truthy None
   \<and> typeContentToTs False (TypeContentChild ''string'' None (Some True) None None) True
       = Inr ''string''"
  using string_only_empty_allow
    [of None None None None True "[]" "\<lparr>defaultToRequired = True, sortPropertiesByName = True\<rparr>"
       True True 0]
  by (simp add: labelShortCircuit_def flag_def requiredOf_def truthy_def)

text \<open>
  C5: a basic node with a non-empty \<open>allow\<close> list parses to a \<open>union\<close> composite. Its
  children are the plain leaf of the base type when the first allowed value is \<open>null\<close>
  and only then, followed by one leaf for each allowed value in order, a string value
  as a single-quoted literal and any other value as a bare token, the text the runtime
  prints for it. \<open>parseSchema\<close> returns the same composite with \<open>required\<close> filled in.
\<close>

theorem basic_allow_union:
  assumes "type d \<in> {''any'', ''boolean'', ''date'', ''number''}"
    and "allow d = Some vs" and "vs \<noteq> []"
  shows "parseBasicSchema d s =
           Some (TypeContentRoot UnionOp
                  ((if hd vs = JNull then [plainLeaf (baseTypeName (type d))] else [])
                    @ map (\<lambda>v. plainLeaf (literalText v)) vs)
                  None (flag label d) (flag fdescription d))
       \<and> (\<not> labelShortCircuit d ul il \<longrightarrow>
           parseSchema d s ul il =
             Inr (Some (TypeContentRoot UnionOp
                  ((if hd vs = JNull then [plainLeaf (baseTypeName (type d))] else [])
                    @ map (\<lambda>v. plainLeaf (literalText v)) vs)
                  (Some (requiredOf d s)) (flag label d) (flag fdescription d))))"
proof -
  have lit: "(if isString v then [quote] @ jsToString v @ [quote] else jsToString v)
               = literalText v" for v
    by (cases v) simp_all
  from assms(3) obtain v vs' where vs: "vs = v # vs'"
    by (cases vs) auto
  have basic: "parseBasicSchema d s =
           Some (TypeContentRoot UnionOp
                  ((if hd vs = JNull then [plainLeaf (baseTypeName (type d))] else [])
                    @ map (\<lambda>v. plainLeaf (literalText v)) vs)
                  None (flag label d) (flag fdescription d))"
    using assms(2) unfolding vs parseBasicSchema_def getCommonDetails_eq
    by (simp add: lit makeTypeContentChild_def makeTypeContentRoot_def plainLeaf_def
        baseTypeName_def Let_def)
  have ty: "type d \<in> set supportedJoiTypes" "type d \<noteq> ''array''" "type d \<noteq> ''string''"
    "type d \<noteq> ''alternatives''" "type d \<noteq> ''object''"
    using assms(1) by (auto simp: supportedJoiTypes_def)
  show ?thesis
  proof (intro conjI impI)
    show "parseBasicSchema d s =
           Some (TypeContentRoot UnionOp
                  ((if hd vs = JNull then [plainLeaf (baseTypeName (type d))] else [])
                    @ map (\<lambda>v. plainLeaf (literalText v)) vs)
                  None (flag label d) (flag fdescription d))"
      by (rule basic)
  next
    assume n: "\<not> labelShortCircuit d ul il"
    show "parseSchema d s ul il =
             Inr (Some (TypeContentRoot UnionOp
                  ((if hd vs = JNull then [plainLeaf (baseTypeName (type d))] else [])
                    @ map (\<lambda>v. plainLeaf (literalText v)) vs)
                  (Some (requiredOf d s)) (flag label d) (flag fdescription d)))"
      unfolding parseSchema_no_shortcut[OF n] using ty by (simp add: basic)
  qed
qed

theorem basic_allow_union_witness:
  "type (Describe ''number'' None (Some [JNull, JOther ''1e+21'', JStr ''a'']) None None None)
      \<in> {''any'', ''boolean'', ''date'', ''number''}
   \<and> allow (Describe ''number'' None (Some [JNull, JOther ''1e+21'', JStr ''a'']) None None None)
       = Some [JNull, JOther ''1e+21'', JStr ''a'']
   \<and> [JNull, JOther ''1e+21'', JStr ''a''] \<noteq> []
   \<and> \<not> labelShortCircuit (Describe ''number'' None (Some [JNull, JOther ''1e+21'', JStr ''a'']) None None None)
         True []
   \<and> parseBasicSchema (Describe ''number'' None (Some [JNull, JOther ''1e+21'', JStr ''a'']) None None None)
         \<lparr>defaultToRequired = True, sortPropertiesByName = True\<rparr>
       = Some (TypeContentRoot UnionOp
                 [TypeContentChild ''number'' None None None None,
                  TypeContentChild ''null'' None None None None,
                  TypeContentChild ''1e+21'' None None None None,
                  TypeContentChild [quote, CHR ''a'', quote] None None None None]
                 None None None)
   \<and> parseSchema (Describe ''number'' None (Some [JNull, JOther ''1e+21'', JStr ''a'']) None None None)
         \<lparr>defaultToRequired = True, sortPropertiesByName = True\<rparr> True []
       = Inr (Some (TypeContentRoot UnionOp
                 [TypeContentChild ''number'' None None None None,
                  TypeContentChild ''null'' None None None None,
                  TypeContentChild ''1e+21'' None None None None,
                  TypeContentChild [quote, CHR ''a'', quote] None None None None]
                 (Some True) None None))"
proof -
  show ?thesis
    using basic_allow_union
      [of "Describe ''number'' None (Some [JNull, JOther ''1e+21'', JStr ''a'']) None None None"
          "[JNull, JOther ''1e+21'', JStr ''a'']" "\<lparr>defaultToRequired = True, sortPropertiesByName = True\<rparr>"
          True "[]"]
    by (simp add: labelShortCircuit_def flag_def plainLeaf_def baseTypeName_def requiredOf_def)
qed

section \<open>Rendering\<close>

text \<open>
  C9: a render leaves the tree as it was, so a second render of the same tree under the
  same \<open>commentEverything\<close> and \<open>doExport\<close>, made after the first, has the same
  outcome, text for text or error for error; it is the outcome \<open>typeContentToTs\<close> gives.
\<close>

theorem render_deterministic:
  "typeContentToTsS ce tc de = (out1, tc1) \<Longrightarrow> typeContentToTsS ce tc1 de = (out2, tc2) \<Longrightarrow>
     out1 = out2 \<and> tc1 = tc \<and> tc2 = tc \<and> typeContentToTs ce tc de = out1"
  by (auto simp: typeContentToTsS_pure)

theorem render_deterministic_witness:
  "typeContentToTsS False
       (TypeContentRoot ObjectOp
          [TypeContentChild ''string'' None (Some True) (Some ''businessName'') None,
           TypeContentChild ''string'' None (Some False) (Some ''jobTitle'') (Some ''Title'')]
          (Some False) (Some ''Job'') None) True
     = (Inr (''export interface Job {'' @ [newline] @ ''  businessName: string;'' @ [newline]
             @ ''  /**'' @ [newline] @ ''   * Title'' @ [newline] @ ''   */'' @ [newline]
             @ ''  jobTitle?: string;'' @ [newline] @ ''}''),
        TypeContentRoot ObjectOp
          [TypeContentChild ''string'' None (Some True) (Some ''businessName'') None,
           TypeContentChild ''string'' None (Some False) (Some ''jobTitle'') (Some ''Title'')]
          (Some False) (Some ''Job'') None)
   \<and> typeContentToTs False
       (TypeContentRoot ObjectOp
          [TypeContentChild ''string'' None (Some True) (Some ''businessName'') None,
           TypeContentChild ''string'' None (Some False) (Some ''jobTitle'') (Some ''Title'')]
          (Some False) (Some ''Job'') None) True
     = Inr (''export interface Job {'' @ [newline] @ ''  businessName: string;'' @ [newline]
             @ ''  /**'' @ [newline] @ ''   * Title'' @ [newline] @ ''   */'' @ [newline]
             @ ''  jobTitle?: string;'' @ [newline] @ ''}'')"
proof -
  let ?tc = "TypeContentRoot ObjectOp
          [TypeContentChild ''string'' None (Some True) (Some ''businessName'') None,
           TypeContentChild ''string'' None (Some False) (Some ''jobTitle'') (Some ''Title'')]
          (Some False) (Some ''Job'') None"
  let ?out = "Inr (''export interface Job {'' @ [newline] @ ''  businessName: string;''
                   @ [newline] @ ''  /**'' @ [newline] @ ''   * Title'' @ [newline]
                   @ ''   */'' @ [newline] @ ''  jobTitle?: string;'' @ [newline] @ ''}'')
              :: error + string"
  have h: "typeContentToTsS False ?tc True = (?out, ?tc)"
    by (simp add: typeContentToTsS_def typeContentToTsHelperS.simps getDescriptionStr_def
        getIndentStr_def truthy_def tmpl_def)
  show ?thesis
    using h render_deterministic [OF h h]
    by simp
qed

text \<open>
  C10: an \<open>object\<close> composite without children and with a non-empty name renders, with
  export requested, as \<open>export interface\<close>, the name and an empty brace body. Without
  export it renders as the placeholder \<open>object\<close>, and no other \<open>object\<close> composite
  renders as that placeholder.
\<close>

theorem empty_object_export:
  "(truthy n \<longrightarrow>
      typeContentToTsHelper ce (TypeContentRoot ObjectOp [] r n d) True ind
        = Inr (''export interface '' @ tmpl n @ '' {}'', d))
   \<and> typeContentToTsHelper ce (TypeContentRoot ObjectOp [] r n d) False ind = Inr (''object'', d)
   \<and> (typeContentToTsHelper ce (TypeContentRoot ObjectOp cs r n d) de ind = Inr (''object'', dd)
        \<longrightarrow> cs = [] \<and> \<not> de)"
proof (intro conjI impI)
  assume "truthy n"
  then show "typeContentToTsHelper ce (TypeContentRoot ObjectOp [] r n d) True ind
        = Inr (''export interface '' @ tmpl n @ '' {}'', d)"
    by (simp add: typeContentToTsHelper.simps)
next
  show "typeContentToTsHelper ce (TypeContentRoot ObjectOp [] r n d) False ind
          = Inr (''object'', d)"
    by (simp add: typeContentToTsHelper.simps)
next
  assume a: "typeContentToTsHelper ce (TypeContentRoot ObjectOp cs r n d) de ind
               = Inr (''object'', dd)"
  show "cs = []"
  proof (rule ccontr)
    assume "cs \<noteq> []"
    with a show False
      by (auto simp: typeContentToTsHelper.simps split: if_splits sum.splits)
  qed
  show "\<not> de"
  proof
    assume "de"
    with a show False
      by (auto simp: typeContentToTsHelper.simps split: if_splits sum.splits)
  qed
qed

theorem empty_object_export_witness:
  "truthy (Some ''Job'')
   \<and> typeContentToTsHelper False (TypeContentRoot ObjectOp [] None (Some ''Job'') None) True 0
       = Inr (''export interface Job {}'', None)
   \<and> typeContentToTsHelper False (TypeContentRoot ObjectOp [] None (Some ''Job'') None) False 0
       = Inr (''object'', None)
   \<and> typeContentToTsHelper False (TypeContentRoot ObjectOp [] None (Some ''Job'') None) False 0
       = Inr (''object'', None)
   \<and> [] = ([] :: TypeContent list) \<and> \<not> False"
proof -
  have t: "truthy (Some ''Job'')"
    by (simp add: truthy_def)
  show ?thesis
    using t empty_object_export [of "Some ''Job''" False None None 0 "[]" False None]
    by (simp add: tmpl_def)
qed

section \<open>Alternatives and objects\<close>




text \<open>
  C7: with \<open>sortPropertiesByName\<close> set, \<open>parseObjects\<close> returns, on every object node
  without an empty \<open>items\<close> array and without an alternatives node that lacks its
  \<open>matches\<close> in it, and whenever it raises nothing, an \<open>object\<close>
  composite in which every child has a name and the names of every two adjacent
  children are in nondecreasing order; \<open>parseSchema\<close> returns a composite with the same
  children for an object node that is not short-circuited by its label.
\<close>

theorem sorted_property_names:
  assumes "sortPropertiesByName s"
  shows "(noEmptyItems (Describe ty fl al its ks ms)
            \<and> matchesPresent (Describe ty fl al its ks ms) \<longrightarrow>
            (\<exists>res. parseObjects (Describe ty fl al its ks ms) s = Inr res))
       \<and> (parseObjects (Describe ty fl al its ks ms) s = Inr res \<longrightarrow>
            (\<exists>cs r n d. res = Some (TypeContentRoot ObjectOp cs r n d)
               \<and> (\<forall>i. Suc i < length cs \<longrightarrow>
                     (\<exists>a b. name (cs ! i) = Some a \<and> name (cs ! Suc i) = Some b \<and> a \<le> b))
               \<and> (ty = ''object'' \<and> \<not> labelShortCircuit (Describe ty fl al its ks ms) ul il \<longrightarrow>
                    (\<exists>r' n' d'. parseSchema (Describe ty fl al its ks ms) s ul il
                        = Inr (Some (TypeContentRoot ObjectOp cs r' n' d'))))))"
proof (intro conjI impI)
  assume "noEmptyItems (Describe ty fl al its ks ms)
            \<and> matchesPresent (Describe ty fl al its ks ms)"
  then show "\<exists>res. parseObjects (Describe ty fl al its ks ms) s = Inr res"
    using parse_total(4) by blast
next
  let ?d = "Describe ty fl al its ks ms"
  assume a: "parseObjects ?d s = Inr res"
  from parseObjects_shape[OF a] obtain cs where
    nm: "\<forall>c \<in> set cs. name c \<noteq> None"
    and res: "res = Some (TypeContentRoot ObjectOp
                 (let cs1 = (if flag unknown ?d = Some True then cs @ [unknownProperty] else cs)
                  in if sortPropertiesByName s then sortBy compareNames cs1 else cs1)
                 None (flag label ?d) (flag fdescription ?d))"
    by blast
  let ?cs1 = "if flag unknown ?d = Some True then cs @ [unknownProperty] else cs"
  have nm1: "\<forall>c \<in> set ?cs1. name c \<noteq> None"
    using nm by (auto simp: unknownProperty_def)
  have res': "res = Some (TypeContentRoot ObjectOp (sortBy compareNames ?cs1) None (flag label ?d)
                 (flag fdescription ?d))"
    using res assms by (simp add: Let_def)
  have adj: "\<forall>i. Suc i < length (sortBy compareNames ?cs1) \<longrightarrow>
                 (\<exists>a b. name (sortBy compareNames ?cs1 ! i) = Some a
                      \<and> name (sortBy compareNames ?cs1 ! Suc i) = Some b \<and> a \<le> b)"
    using sortBy_adjacent[OF nm1] by blast
  have top: "\<exists>r' n' d'. parseSchema ?d s ul il
                    = Inr (Some (TypeContentRoot ObjectOp (sortBy compareNames ?cs1) r' n' d'))"
    if h: "ty = ''object'' \<and> \<not> labelShortCircuit ?d ul il"
  proof -
    from h have n: "\<not> labelShortCircuit ?d ul il"
      by (rule conjunct2)
    show ?thesis
      unfolding parseSchema_no_shortcut[OF n] using h a
      by (simp add: supportedJoiTypes_def res')
  qed
  show "\<exists>cs r n d. res = Some (TypeContentRoot ObjectOp cs r n d)
               \<and> (\<forall>i. Suc i < length cs \<longrightarrow>
                     (\<exists>a b. name (cs ! i) = Some a \<and> name (cs ! Suc i) = Some b \<and> a \<le> b))
               \<and> (ty = ''object'' \<and> \<not> labelShortCircuit ?d ul il \<longrightarrow>
                    (\<exists>r' n' d'. parseSchema ?d s ul il
                        = Inr (Some (TypeContentRoot ObjectOp cs r' n' d'))))"
    using res' adj top by blast
qed

theorem sorted_property_names_witness:
  "sortPropertiesByName \<lparr>defaultToRequired = True, sortPropertiesByName = True\<rparr>
   \<and> noEmptyItems (Describe ''object'' None None None
           (Some [(''b'', Describe ''string'' None None None None None),
                  (''a'', Describe ''number'' None None None None None)]) None)
   \<and> matchesPresent (Describe ''object'' None None None
           (Some [(''b'', Describe ''string'' None None None None None),
                  (''a'', Describe ''number'' None None None None None)]) None)
   \<and> parseObjects (Describe ''object'' None None None
           (Some [(''b'', Describe ''string'' None None None None None),
                  (''a'', Describe ''number'' None None None None None)]) None)
         \<lparr>defaultToRequired = True, sortPropertiesByName = True\<rparr>
       = Inr (Some (TypeContentRoot ObjectOp
                [TypeContentChild ''number'' None (Some True) (Some ''a'') None,
                 TypeContentChild ''string'' None (Some True) (Some ''b'') None]
                None None None))
   \<and> Suc 0 < length
                [TypeContentChild ''number'' None (Some True) (Some ''a'') None,
                 TypeContentChild ''string'' None (Some True) (Some ''b'') None]
   \<and> (\<exists>a b. name ([TypeContentChild ''number'' None (Some True) (Some ''a'') None,
                     TypeContentChild ''string'' None (Some True) (Some ''b'') None] ! 0)
                 = Some a
             \<and> name ([TypeContentChild ''number'' None (Some True) (Some ''a'') None,
                       TypeContentChild ''string'' None (Some True) (Some ''b'') None] ! Suc 0)
                 = Some b
             \<and> a \<le> b)
   \<and> \<not> labelShortCircuit (Describe ''object'' None None None
           (Some [(''b'', Describe ''string'' None None None None None),
                  (''a'', Describe ''number'' None None None None None)]) None) True []
   \<and> parseSchema (Describe ''object'' None None None
           (Some [(''b'', Describe ''string'' None None None None None),
                  (''a'', Describe ''number'' None None None None None)]) None)
         \<lparr>defaultToRequired = True, sortPropertiesByName = True\<rparr> True []
       = Inr (Some (TypeContentRoot ObjectOp
                [TypeContentChild ''number'' None (Some True) (Some ''a'') None,
                 TypeContentChild ''string'' None (Some True) (Some ''b'') None]
                (Some True) None None))"
proof -
  let ?d = "Describe ''object'' None None None
           (Some [(''b'', Describe ''string'' None None None None None),
                  (''a'', Describe ''number'' None None None None None)]) None"
  let ?s = "\<lparr>defaultToRequired = True, sortPropertiesByName = True\<rparr>"
  let ?cs = "[TypeContentChild ''number'' None (Some True) (Some ''a'') None,
              TypeContentChild ''string'' None (Some True) (Some ''b'') None]"
  have h1: "sortPropertiesByName ?s"
    by simp
  have h0: "noEmptyItems ?d" "matchesPresent ?d"
    by simp_all
  have h2: "parseObjects ?d ?s = Inr (Some (TypeContentRoot ObjectOp ?cs None None None))"
    by (simp add: parse_eval)
  have h3: "\<not> labelShortCircuit ?d True []"
    by (simp add: labelShortCircuit_def flag_def)
  have h4: "parseSchema ?d ?s True []
              = Inr (Some (TypeContentRoot ObjectOp ?cs (Some True) None None))"
    by (simp add: parse_eval)
  from sorted_property_names
         [OF h1, of "''object''" None None None
            "Some [(''b'', Describe ''string'' None None None None None),
                   (''a'', Describe ''number'' None None None None None)]" None
            "Some (TypeContentRoot ObjectOp ?cs None None None)" True "[]"] h2
  have "\<forall>i. Suc i < length ?cs \<longrightarrow>
          (\<exists>a b. name (?cs ! i) = Some a \<and> name (?cs ! Suc i) = Some b \<and> a \<le> b)"
    by auto
  then have "\<exists>a b. name (?cs ! 0) = Some a \<and> name (?cs ! Suc 0) = Some b \<and> a \<le> b"
    by simp
  with h0 h1 h2 h3 h4 show ?thesis
    by simp
qed

text \<open>
  C6: an object node with \<open>flags.unknown = true\<close> that is not short-circuited by its
  label parses, on every node without an empty \<open>items\<close> array and without an
  alternatives node that lacks its \<open>matches\<close> in it, and whenever the parse raises
  nothing, to an \<open>object\<close> composite that has the property named
  \<open>[x: string]\<close> among its children, with content \<open>any\<close>, required, and described as
  \<open>Unknown Property\<close>, whatever the keys of the node are. That composite renders
  without error, with export too when it has a non-empty name, and the rendered text
  contains the index-signature property.
\<close>

theorem unknown_flag_index_signature:
  assumes "type d = ''object''" and "flag unknown d = Some True"
    and "\<not> labelShortCircuit d ul il"
  shows "(noEmptyItems d \<and> matchesPresent d \<longrightarrow> (\<exists>res. parseSchema d s ul il = Inr res))
       \<and> (parseSchema d s ul il = Inr res \<longrightarrow>
            (\<exists>cs tc. res = Some tc
               \<and> tc = TypeContentRoot ObjectOp cs (Some (requiredOf d s)) (flag label d)
                        (flag fdescription d)
               \<and> TypeContentChild ''any'' None (Some True) (Some ''[x: string]'')
                     (Some ''Unknown Property'') \<in> set cs
               \<and> ((de \<longrightarrow> truthy (flag label d)) \<longrightarrow>
                    (\<exists>t. typeContentToTsHelper ce tc de ind = Inr (t, flag fdescription d)
                        \<and> sublist (indexSignatureText ind) t))))"
proof (intro conjI impI)
  assume "noEmptyItems d \<and> matchesPresent d"
  then show "\<exists>res. parseSchema d s ul il = Inr res"
    using parse_total(1) by blast
next
  assume a: "parseSchema d s ul il = Inr res"
  obtain ty fl al its ks ms where d: "d = Describe ty fl al its ks ms"
    by (cases d)
  have ty: "type d \<in> set supportedJoiTypes" "type d \<noteq> ''array''" "type d \<noteq> ''string''"
    "type d \<noteq> ''alternatives''"
    using assms(1) by (simp_all add: supportedJoiTypes_def)
  from a obtain p where p: "parseObjects d s = Inr p"
    unfolding parseSchema_no_shortcut[OF assms(3)] using ty assms(1)
    by (auto split: sum.splits)
  from parseObjects_shape[OF p[unfolded d]] obtain cs0 where
    p': "p = Some (TypeContentRoot ObjectOp
                 (let cs1 = (if flag unknown d = Some True then cs0 @ [unknownProperty] else cs0)
                  in if sortPropertiesByName s then sortBy compareNames cs1 else cs1)
                 None (flag label d) (flag fdescription d))"
    unfolding d by blast
  define cs where "cs = (if sortPropertiesByName s then sortBy compareNames (cs0 @ [unknownProperty])
                         else cs0 @ [unknownProperty])"
  define tc where "tc = TypeContentRoot ObjectOp cs (Some (requiredOf d s)) (flag label d)
                    (flag fdescription d)"
  have p'': "p = Some (TypeContentRoot ObjectOp cs None (flag label d) (flag fdescription d))"
    using p' assms(2) by (simp add: cs_def Let_def)
  have res: "parseSchema d s ul il = Inr (Some tc)"
    unfolding parseSchema_no_shortcut[OF assms(3)] using ty assms(1) p p''
    by (simp add: tc_def)
  then have r: "res = Some tc"
    using a by simp
  have mem: "unknownProperty \<in> set cs"
    by (simp add: cs_def set_sortBy)
  have wf: "wellFormed tc"
    using wellFormed_parse(1)[of d s ul il] res by blast
  have render: "\<exists>t. typeContentToTsHelper ce tc de ind = Inr (t, flag fdescription d)
                    \<and> sublist (indexSignatureText ind) t"
    if "de \<longrightarrow> truthy (flag label d)"
  proof -
    from helper_total[OF wf, of de ce ind] that
    obtain t where t: "typeContentToTsHelper ce tc de ind = Inr (t, flag fdescription d)"
      by (auto simp: tc_def)
    from object_render_contains[OF t[unfolded tc_def] mem] t show ?thesis
      by blast
  qed
  show "\<exists>cs tc. res = Some tc
               \<and> tc = TypeContentRoot ObjectOp cs (Some (requiredOf d s)) (flag label d)
                        (flag fdescription d)
               \<and> TypeContentChild ''any'' None (Some True) (Some ''[x: string]'')
                     (Some ''Unknown Property'') \<in> set cs
               \<and> ((de \<longrightarrow> truthy (flag label d)) \<longrightarrow>
                    (\<exists>t. typeContentToTsHelper ce tc de ind = Inr (t, flag fdescription d)
                        \<and> sublist (indexSignatureText ind) t))"
    using r mem render unfolding tc_def unknownProperty_def by blast
qed

theorem unknown_flag_index_signature_witness:
  "type (Describe ''object''
           (Some \<lparr>label = Some ''Bag'', fdescription = None, presence = None,
                  unknown = Some True\<rparr>)
           None None (Some [(''a'', Describe ''string'' None None None None None)]) None)
     = ''object''
   \<and> flag unknown (Describe ''object''
           (Some \<lparr>label = Some ''Bag'', fdescription = None, presence = None,
                  unknown = Some True\<rparr>)
           None None (Some [(''a'', Describe ''string'' None None None None None)]) None)
     = Some True
   \<and> \<not> labelShortCircuit (Describe ''object''
           (Some \<lparr>label = Some ''Bag'', fdescription = None, presence = None,
                  unknown = Some True\<rparr>)
           None None (Some [(''a'', Describe ''string'' None None None None None)]) None) False []
   \<and> noEmptyItems (Describe ''object''
           (Some \<lparr>label = Some ''Bag'', fdescription = None, presence = None,
                  unknown = Some True\<rparr>)
           None None (Some [(''a'', Describe ''string'' None None None None None)]) None)
   \<and> matchesPresent (Describe ''object''
           (Some \<lparr>label = Some ''Bag'', fdescription = None, presence = None,
                  unknown = Some True\<rparr>)
           None None (Some [(''a'', Describe ''string'' None None None None None)]) None)
   \<and> parseSchema (Describe ''object''
           (Some \<lparr>label = Some ''Bag'', fdescription = None, presence = None,
                  unknown = Some True\<rparr>)
           None None (Some [(''a'', Describe ''string'' None None None None None)]) None)
         \<lparr>defaultToRequired = True, sortPropertiesByName = True\<rparr> False []
       = Inr (Some (TypeContentRoot ObjectOp
                [TypeContentChild ''any'' None (Some True) (Some ''[x: string]'')
                   (Some ''Unknown Property''),
                 TypeContentChild ''string'' None (Some True) (Some ''a'') None]
                (Some True) (Some ''Bag'') None))
   \<and> truthy (Some ''Bag'')
   \<and> typeContentToTsHelper False
         (TypeContentRoot ObjectOp
                [TypeContentChild ''any'' None (Some True) (Some ''[x: string]'')
                   (Some ''Unknown Property''),
                 TypeContentChild ''string'' None (Some True) (Some ''a'') None]
                (Some True) (Some ''Bag'') None) True 0
       = Inr (''export interface Bag {'' @ [newline] @ ''  /**'' @ [newline]
              @ ''   * Unknown Property'' @ [newline] @ ''   */'' @ [newline]
              @ ''  [x: string]: any;'' @ [newline] @ ''  a: string;'' @ [newline] @ ''}'', None)
   \<and> sublist (indexSignatureText 0)
         (''export interface Bag {'' @ [newline] @ ''  /**'' @ [newline]
              @ ''   * Unknown Property'' @ [newline] @ ''   */'' @ [newline]
              @ ''  [x: string]: any;'' @ [newline] @ ''  a: string;'' @ [newline] @ ''}'')"
proof -
  let ?d = "Describe ''object''
           (Some \<lparr>label = Some ''Bag'', fdescription = None, presence = None,
                  unknown = Some True\<rparr>)
           None None (Some [(''a'', Describe ''string'' None None None None None)]) None"
  let ?s = "\<lparr>defaultToRequired = True, sortPropertiesByName = True\<rparr>"
  let ?tc = "TypeContentRoot ObjectOp
                [TypeContentChild ''any'' None (Some True) (Some ''[x: string]'')
                   (Some ''Unknown Property''),
                 TypeContentChild ''string'' None (Some True) (Some ''a'') None]
                (Some True) (Some ''Bag'') None"
  have h0: "noEmptyItems ?d" "matchesPresent ?d"
    by simp_all
  have h1: "type ?d = ''object''"
    by simp
  have h2: "flag unknown ?d = Some True"
    by (simp add: flag_def)
  have h3: "\<not> labelShortCircuit ?d False []"
    by (simp add: labelShortCircuit_def flag_def)
  have h4: "parseSchema ?d ?s False [] = Inr (Some ?tc)"
    by (simp add: parse_eval)
  have h5: "typeContentToTsHelper False ?tc True 0
       = Inr (''export interface Bag {'' @ [newline] @ ''  /**'' @ [newline]
              @ ''   * Unknown Property'' @ [newline] @ ''   */'' @ [newline]
              @ ''  [x: string]: any;'' @ [newline] @ ''  a: string;'' @ [newline] @ ''}'', None)"
    by (simp add: typeContentToTsHelper.simps getDescriptionStr_def getIndentStr_def truthy_def
        tmpl_def)
  have h6: "truthy (Some ''Bag'')"
    by (simp add: truthy_def)
  show ?thesis
    using h0 h1 h2 h3 h4 h5 h6
      unknown_flag_index_signature [OF h1 h2 h3, of ?s "Some ?tc" True False 0]
    by (auto simp: flag_def)
qed

end
